theory Spec2Isabelle
  imports Complex_Main "HOL-Library.AList"
begin

section \<open>JavaScript values shared by the modules\<close>

text \<open>
  The head of an HTTP response as axios reports it: the numeric status and the headers
  (name and value; axios lower-cases the names). \<open>headers[name]\<close> is \<open>get_header\<close>.
  A successful response carries the payload as well.
\<close>

record response_head =
  status :: nat
  headers :: "(string \<times> string) list"

record 'p http_response = response_head +
  data :: 'p

definition get_header :: "(string \<times> string) list \<Rightarrow> string \<Rightarrow> string option" where
  "get_header hs name = map_of hs name"

text \<open>
  A thrown JavaScript error, with the three properties the code inspects:
  \<open>error.message\<close>, \<open>error.code\<close> (set by the file system, e.g. \<open>ENOENT\<close>) and
  \<open>error.response\<close> (set by axios when the server answered).
\<close>

record js_error =
  message :: string
  code :: "string option"
  response :: "response_head option"

definition new_Error :: "string \<Rightarrow> js_error" where
  "new_Error msg = \<lparr>message = msg, code = None, response = None\<rparr>"

text \<open>An argument that the callee tests with \<open>typeof x !== 'string'\<close>.\<close>

datatype js_value = JString string | NonString

text \<open>
  A time stamp as the code stores it, the text of \<open>new Date().toISOString()\<close>. The text
  is represented by the instant it denotes, in milliseconds since the epoch; a string
  that \<open>new Date(s)\<close> cannot read is \<open>NotADate\<close>, and \<open>getTime()\<close> of it is \<open>NaN\<close>.
\<close>

datatype js_date_string = IsoTime int | NotADate string

text \<open>\<open>String(n)\<close> of a natural number: its decimal digits.\<close>

function decimal :: "nat \<Rightarrow> string" where
  "decimal n = (if n < 10 then [char_of (48 + n)] else decimal (n div 10) @ [char_of (48 + n mod 10)])"
  by pat_completeness auto
termination
  by (relation "measure id") auto

declare decimal.simps [simp del]

section \<open>src/utils/address.js\<close>

text \<open>
  \<open>String.prototype.toLowerCase\<close> and \<open>toUpperCase\<close> on the ASCII letters. Characters
  outside ASCII are left alone by the model; JavaScript maps them to characters that are
  again neither hexadecimal digits nor \<open>0\<close> or \<open>x\<close>, so the format test below rejects the
  string either way.
\<close>

definition char_in_range :: "char \<Rightarrow> char \<Rightarrow> char \<Rightarrow> bool" where
  "char_in_range lo hi c = ((of_char lo :: nat) \<le> of_char c \<and> (of_char c :: nat) \<le> of_char hi)"

definition toLowerCase_char :: "char \<Rightarrow> char" where
  "toLowerCase_char c =
     (if char_in_range CHR ''A'' CHR ''Z'' c then char_of (of_char c + (32 :: nat)) else c)"

definition toUpperCase_char :: "char \<Rightarrow> char" where
  "toUpperCase_char c =
     (if char_in_range CHR ''a'' CHR ''z'' c then char_of (of_char c - (32 :: nat)) else c)"

definition toLowerCase :: "string \<Rightarrow> string" where
  "toLowerCase s = map toLowerCase_char s"

text \<open>
  \<open>s.replace(pat, rep)\<close> with a string pattern: only the first occurrence, wherever it
  is, is replaced.
\<close>

fun replace_first :: "string \<Rightarrow> string \<Rightarrow> string \<Rightarrow> string" where
  "replace_first pat rep [] = (if pat = [] then rep else [])"
| "replace_first pat rep (c # cs) =
     (if take (length pat) (c # cs) = pat then rep @ drop (length pat) (c # cs)
      else c # replace_first pat rep cs)"

text \<open>The regular expression \<open>/^[0-9a-f]{40}$/i\<close>.\<close>

definition is_hex_digit_i :: "char \<Rightarrow> bool" where
  "is_hex_digit_i c =
     (char_in_range CHR ''0'' CHR ''9'' c \<or> char_in_range CHR ''a'' CHR ''f'' c \<or>
      char_in_range CHR ''A'' CHR ''F'' c)"

definition matches_hex40 :: "string \<Rightarrow> bool" where
  "matches_hex40 s = (length s = 40 \<and> list_all is_hex_digit_i s)"

text \<open>
  \<open>parseInt(c, 16)\<close> of a single character: its value, or \<open>None\<close> for \<open>NaN\<close>.
  \<open>hash[i]\<close> beyond the end of the digest is \<open>undefined\<close>, which parses to \<open>NaN\<close>, and
  \<open>NaN >= 8\<close> is false.
\<close>

definition parseInt16_char :: "char \<Rightarrow> nat option" where
  "parseInt16_char c =
     (if char_in_range CHR ''0'' CHR ''9'' c then Some (of_char c - of_char CHR ''0'')
      else if char_in_range CHR ''a'' CHR ''f'' c then Some (of_char c - of_char CHR ''a'' + 10)
      else if char_in_range CHR ''A'' CHR ''F'' c then Some (of_char c - of_char CHR ''A'' + 10)
      else None)"

definition hash_digit_ge_8 :: "string \<Rightarrow> nat \<Rightarrow> bool" where
  "hash_digit_ge_8 hash i =
     (i < length hash \<and> (case parseInt16_char (hash ! i) of Some v \<Rightarrow> 8 \<le> v | None \<Rightarrow> False))"

text \<open>The \<open>for\<close> loop of \<open>toChecksumAddress\<close>, with the string built so far.\<close>

function checksum_loop :: "string \<Rightarrow> string \<Rightarrow> nat \<Rightarrow> string \<Rightarrow> string" where
  "checksum_loop hash cleanAddress i checksummedAddress =
     (if i < length cleanAddress then
        checksum_loop hash cleanAddress (Suc i)
          (checksummedAddress @
             [if hash_digit_ge_8 hash i then toUpperCase_char (cleanAddress ! i)
              else cleanAddress ! i])
      else checksummedAddress)"
  by pat_completeness auto
termination
  by (relation "measure (\<lambda>(hash, cleanAddress, i, acc). length cleanAddress - i)") auto

declare checksum_loop.simps [simp del]

text \<open>
  \<open>crypto.createHash(algorithm)\<close>, followed by \<open>.update(text).digest('hex')\<close>. Node looks
  the algorithm up by name in OpenSSL and throws \<open>Digest method not supported\<close> when
  OpenSSL has no digest of that name. The repository passes three names: \<open>sha256\<close>
  and \<open>sha3-256\<close>, which OpenSSL provides, and \<open>keccak256\<close>, which it does not (the
  package \<open>keccak\<close> that the project lists as a dependency is never imported).
  \<open>openssl\<close> gives the digest function of an algorithm that is provided, from the text
  to the digest in hexadecimal. Names other than these three do not occur.
\<close>

definition createHash ::
  "(string \<Rightarrow> string \<Rightarrow> string) \<Rightarrow> string \<Rightarrow> js_error + (string \<Rightarrow> string)" where
  "createHash openssl algorithm =
     (if algorithm = ''sha256'' \<or> algorithm = ''sha3-256'' then Inr (openssl algorithm)
      else Inl (new_Error ''Digest method not supported''))"

text \<open>
  \<open>toChecksumAddress\<close>. The type test comes first, then the format test, then the
  digest; each of the three can throw.
\<close>

definition toChecksumAddress ::
  "(string \<Rightarrow> string \<Rightarrow> string) \<Rightarrow> js_value \<Rightarrow> js_error + string" where
  "toChecksumAddress openssl address =
     (case address of
        NonString \<Rightarrow> Inl (new_Error ''Address must be a string'')
      | JString a \<Rightarrow>
          (let cleanAddress = replace_first ''0x'' [] (toLowerCase a) in
           if \<not> matches_hex40 cleanAddress then Inl (new_Error ''Invalid address format'')
           else
             (case createHash openssl ''keccak256'' of
                Inl error \<Rightarrow> Inl error
              | Inr digest \<Rightarrow> Inr (checksum_loop (digest cleanAddress) cleanAddress 0 ''0x''))))"

text \<open>\<open>isValidChecksumAddress\<close>: any error thrown by \<open>toChecksumAddress\<close> gives \<open>false\<close>.\<close>

definition isValidChecksumAddress :: "(string \<Rightarrow> string \<Rightarrow> string) \<Rightarrow> js_value \<Rightarrow> bool" where
  "isValidChecksumAddress openssl address =
     (case toChecksumAddress openssl address of
        Inl e \<Rightarrow> False
      | Inr r \<Rightarrow> address = JString r)"

text \<open>
  A syntactically valid address as the specification words it: forty hexadecimal
  digits in any letter case, with or without the prefix \<open>0x\<close>.
\<close>

definition hex40_address :: "string \<Rightarrow> bool" where
  "hex40_address s =
     (matches_hex40 s \<or> (take 2 s = ''0x'' \<and> matches_hex40 (drop 2 s)))"

text \<open>
  In EIP-55 only the letters of an address carry the checksum, so an address whose
  forty digits are all decimal is its own checksummed form whatever the digest says.
  \<open>demo_address\<close> is such an address; \<open>test_address\<close> is the lower-case address of
  test/address.test.js.
\<close>

definition demo_address :: string where
  "demo_address = ''0x1000000000000000000000000000000000000000''"

definition test_address :: string where
  "test_address = ''0xa0b86a33e6411bf3d4c0e60b48fe3bc6b84ed4d2''"

text \<open>Auxiliary predicate for the proofs: a digit or a lower-case letter \<open>a\<close> to \<open>f\<close>.\<close>

definition lower_hex_char :: "char \<Rightarrow> bool" where
  "lower_hex_char c = (char_in_range CHR ''0'' CHR ''9'' c \<or> char_in_range CHR ''a'' CHR ''f'' c)"
section \<open>src/http.js (src/unnamed/part_005)\<close>

text \<open>
  Times are milliseconds since the epoch, as \<open>Date.now()\<close> returns them; delays are
  JavaScript numbers, modelled by the reals (rounding of doubles is not modelled), with
  \<open>None\<close> for \<open>NaN\<close> where the code can produce it.
\<close>

record http_config =
  timeout :: real
  maxRetries :: nat
  retryDelay :: real
  maxRetryDelay :: real
  userAgent :: string

record http_client_options =
  timeout_opt :: "real option"
  maxRetries_opt :: "nat option"
  retryDelay_opt :: "real option"
  maxRetryDelay_opt :: "real option"
  userAgent_opt :: "string option"

definition DEFAULT_TIMEOUT :: real where "DEFAULT_TIMEOUT = 30000"
definition DEFAULT_MAX_RETRIES :: nat where "DEFAULT_MAX_RETRIES = 3"
definition DEFAULT_RETRY_DELAY :: real where "DEFAULT_RETRY_DELAY = 1000"
definition DEFAULT_MAX_RETRY_DELAY :: real where "DEFAULT_MAX_RETRY_DELAY = 10000"

text \<open>
  \<open>options.x || DEFAULT\<close>: an absent option and the falsy values \<open>0\<close> and \<open>''\<close> give
  the default.
\<close>

definition or_default :: "'a option \<Rightarrow> 'a \<Rightarrow> 'a \<Rightarrow> 'a" where
  "or_default v falsy d = (case v of None \<Rightarrow> d | Some x \<Rightarrow> if x = falsy then d else x)"

definition new_HttpClient :: "http_client_options \<Rightarrow> http_config" where
  "new_HttpClient options =
     \<lparr>timeout = or_default (timeout_opt options) 0 DEFAULT_TIMEOUT,
      maxRetries = or_default (maxRetries_opt options) 0 DEFAULT_MAX_RETRIES,
      retryDelay = or_default (retryDelay_opt options) 0 DEFAULT_RETRY_DELAY,
      maxRetryDelay = or_default (maxRetryDelay_opt options) 0 DEFAULT_MAX_RETRY_DELAY,
      userAgent = or_default (userAgent_opt options) [] ''sourcify-grabber/1.0.0''\<rparr>"

definition no_options :: http_client_options where
  "no_options = \<lparr>timeout_opt = None, maxRetries_opt = None, retryDelay_opt = None,
     maxRetryDelay_opt = None, userAgent_opt = None\<rparr>"

text \<open>
  \<open>calculateRetryDelay(attempt)\<close>; \<open>random\<close> is the number \<open>Math.random()\<close> returns
  in this call, a number from 0 (inclusive) to 1 (exclusive).
\<close>

definition calculateRetryDelay :: "http_config \<Rightarrow> real \<Rightarrow> nat \<Rightarrow> real" where
  "calculateRetryDelay cfg random attempt =
     (let exponentialDelay = retryDelay cfg * 2 ^ attempt;
          jitter = random * 0.1 * exponentialDelay
      in min (exponentialDelay + jitter) (maxRetryDelay cfg))"

definition isRetryableError :: "js_error \<Rightarrow> bool" where
  "isRetryableError error =
     (case response error of
        None \<Rightarrow> True
      | Some r \<Rightarrow> status r \<ge> 500 \<or> status r = 429)"

text \<open>
  \<open>parseInt(s)\<close> without a radix: leading white space is skipped, a sign is read, the
  prefix \<open>0x\<close> or \<open>0X\<close> selects base 16, and the longest run of digits of the base is
  the value; no digit at all gives \<open>NaN\<close> (\<open>None\<close>).
\<close>

definition is_white_space :: "char \<Rightarrow> bool" where
  "is_white_space c = (c \<in> set [CHR '' '', CHR 0x09, CHR 0x0A, CHR 0x0B, CHR 0x0C, CHR 0x0D])"

definition digit_of :: "nat \<Rightarrow> char \<Rightarrow> nat option" where
  "digit_of radix c =
     (case parseInt16_char c of
        Some v \<Rightarrow> if v < radix then Some v else None
      | None \<Rightarrow> None)"

definition digits_value :: "nat \<Rightarrow> string \<Rightarrow> nat" where
  "digits_value radix ds = foldl (\<lambda>acc c. acc * radix + the (digit_of radix c)) 0 ds"

definition parseInt :: "string \<Rightarrow> int option" where
  "parseInt s =
     (let t = dropWhile is_white_space s;
          negative = (take 1 t = ''-'');
          u = (if take 1 t = ''-'' \<or> take 1 t = ''+'' then drop 1 t else t);
          hex = (take 2 u = ''0x'' \<or> take 2 u = ''0X'');
          radix = (if hex then 16 else 10);
          v = (if hex then drop 2 u else u);
          ds = takeWhile (\<lambda>c. digit_of radix c \<noteq> None) v
      in if ds = [] then None
         else Some ((if negative then - 1 else 1) * int (digits_value radix ds)))"

text \<open>
  \<open>getRetryAfterDelay(response)\<close>. A header that is absent or empty is falsy.
  \<open>NaN * 1000\<close> and \<open>Math.min(NaN, x)\<close> are \<open>NaN\<close>.
\<close>

definition getRetryAfterDelay :: "http_config \<Rightarrow> real \<Rightarrow> response_head \<Rightarrow> real option" where
  "getRetryAfterDelay cfg random resp =
     (case get_header (headers resp) ''retry-after'' of
        Some retryAfter \<Rightarrow>
          if retryAfter \<noteq> [] then
            (case parseInt retryAfter of
               Some n \<Rightarrow> Some (min (real_of_int n * 1000) (maxRetryDelay cfg))
             | None \<Rightarrow> None)
          else Some (calculateRetryDelay cfg random 0)
      | None \<Rightarrow> Some (calculateRetryDelay cfg random 0))"

text \<open>
  The options of one request (\<open>ignoreCache\<close>, \<open>ignoreEtag\<close>, the headers and the body),
  and the request object \<open>{method, url, ...options}\<close> handed to axios. The object spread
  \<open>{...options.headers, 'If-None-Match': etag}\<close> is \<open>AList.update\<close>: the value of a
  header that is present is replaced, a new header is added.
\<close>

record 'p request_options =
  ignoreCache :: bool
  ignoreEtag :: bool
  opt_headers :: "(string \<times> string) list"
  opt_data :: "'p option"

record 'p http_request =
  req_method :: string
  req_url :: string
  req_options :: "'p request_options"

text \<open>A cache file \<open>{url, timestamp, headers: {...}, data}\<close> as \<open>saveToCache\<close> writes it.\<close>

record cached_headers =
  etag :: "string option"
  last_modified :: "string option"
  content_type :: "string option"
  content_length :: "string option"

record 'p cache_entry =
  cache_url :: string
  cache_timestamp :: int
  cache_headers :: cached_headers
  cache_data :: 'p

text \<open>
  What the client calls but does not define: the clock, the random number generator,
  axios, the timer and the SHA-256 digest. \<open>'n\<close> is the state of everything outside the
  process (the network, the servers, the clock); each call may change it.
  \<open>axios_request\<close> either rejects with an error or resolves with a response.
\<close>

record ('n, 'p) host =
  date_now :: "'n \<Rightarrow> int"
  math_random :: "'n \<Rightarrow> real \<times> 'n"
  axios_request :: "'p http_request \<Rightarrow> 'n \<Rightarrow> (js_error + 'p http_response) \<times> 'n"
  set_timeout :: "real option \<Rightarrow> 'n \<Rightarrow> 'n"
  sha256 :: "string \<Rightarrow> string"

text \<open>
  The state a request reads and writes: the outside world, the files of the cache
  directory by path (a file that is missing, unreadable or not JSON is absent), whether
  the directory can be written, and the list of the calls made to axios with their
  outcomes (kept for the proofs; the code keeps no such list).
\<close>

record ('n, 'p) world =
  env :: 'n
  cache_files :: "string \<rightharpoonup> 'p cache_entry"
  cache_writable :: bool
  calls :: "('p http_request \<times> (js_error + 'p http_response)) list"

definition getCacheKey :: "('n, 'p) host \<Rightarrow> string \<Rightarrow> string" where
  "getCacheKey host url = sha256 host url"

definition getCacheFilePath :: "string \<Rightarrow> string" where
  "getCacheFilePath cacheKey = ''cache/'' @ cacheKey @ ''.json''"

definition loadFromCache :: "('n, 'p) host \<Rightarrow> string \<Rightarrow> ('n, 'p) world \<Rightarrow> 'p cache_entry option" where
  "loadFromCache host url w =
     (case cache_files w (getCacheFilePath (getCacheKey host url)) of
        None \<Rightarrow> None
      | Some cached \<Rightarrow>
          (let cacheAge = date_now host (env w) - cache_timestamp cached
           in if cacheAge > 24 * 60 * 60 * 1000 then None else Some cached))"

definition saveToCache ::
  "('n, 'p) host \<Rightarrow> string \<Rightarrow> 'p \<Rightarrow> (string \<times> string) list \<Rightarrow> ('n, 'p) world \<Rightarrow>
     ('n, 'p) world" where
  "saveToCache host url response_data hdrs w =
     (let cacheData =
            \<lparr>cache_url = url,
             cache_timestamp = date_now host (env w),
             cache_headers =
               \<lparr>etag = get_header hdrs ''etag'',
                last_modified = get_header hdrs ''last-modified'',
                content_type = get_header hdrs ''content-type'',
                content_length = get_header hdrs ''content-length''\<rparr>,
             cache_data = response_data\<rparr>
      in if cache_writable w
         then w\<lparr>cache_files := (cache_files w)(getCacheFilePath (getCacheKey host url) \<mapsto> cacheData)\<rparr>
         else w)"

text \<open>
  The delay chosen in the \<open>catch\<close> block, with the world after the random number has
  been drawn (\<open>Math.random\<close> is called only where \<open>calculateRetryDelay\<close> runs).
\<close>

definition retry_delay ::
  "('n, 'p) host \<Rightarrow> http_config \<Rightarrow> js_error \<Rightarrow> nat \<Rightarrow> 'n \<Rightarrow> real option \<times> 'n" where
  "retry_delay host cfg error attempt n =
     (case response error of
        Some r \<Rightarrow>
          if status r = 429 then
            (if (case get_header (headers r) ''retry-after'' of Some h \<Rightarrow> h \<noteq> [] | None \<Rightarrow> False)
             then (getRetryAfterDelay cfg 0 r, n)
             else (let (random, n') = math_random host n
                   in (getRetryAfterDelay cfg random r, n')))
          else (let (random, n') = math_random host n
                in (Some (calculateRetryDelay cfg random attempt), n'))
      | None \<Rightarrow>
          (let (random, n') = math_random host n
           in (Some (calculateRetryDelay cfg random attempt), n')))"

text \<open>The \<open>try\<close> block after axios has resolved with \<open>response\<close>.\<close>

definition on_response ::
  "('n, 'p) host \<Rightarrow> string \<Rightarrow> string \<Rightarrow> 'p http_response \<Rightarrow> ('n, 'p) world \<Rightarrow>
     (js_error + 'p) \<times> ('n, 'p) world" where
  "on_response host method url resp w =
     (case (if status resp = 304 then loadFromCache host url w else None) of
        Some cached \<Rightarrow> (Inr (cache_data cached), w)
      | None \<Rightarrow>
          (Inr (data resp),
           if toLowerCase method = ''get'' \<and> status resp = 200
           then saveToCache host url (data resp) (headers resp) w
           else w))"

text \<open>
  The loop \<open>for (let attempt = 0; attempt <= this.maxRetries; attempt++)\<close> of
  \<open>request\<close>, followed by \<open>throw lastError\<close>. Logging is left out.
\<close>

function request_loop ::
  "('n, 'p) host \<Rightarrow> http_config \<Rightarrow> 'p http_request \<Rightarrow> nat \<Rightarrow> js_error option \<Rightarrow>
     ('n, 'p) world \<Rightarrow> (js_error + 'p) \<times> ('n, 'p) world" where
  "request_loop host cfg req attempt lastError w =
     (if attempt \<le> maxRetries cfg then
        (let (outcome, n1) = axios_request host req (env w);
             w1 = w\<lparr>env := n1, calls := calls w @ [(req, outcome)]\<rparr>
         in case outcome of
              Inr resp \<Rightarrow> on_response host (req_method req) (req_url req) resp w1
            | Inl error \<Rightarrow>
                if attempt = maxRetries cfg then (Inl error, w1)
                else if \<not> isRetryableError error then (Inl error, w1)
                else (let (delay, n2) = retry_delay host cfg error attempt n1;
                          w2 = w1\<lparr>env := set_timeout host delay n2\<rparr>
                      in request_loop host cfg req (Suc attempt) (Some error) w2))
      else (case lastError of
              Some error \<Rightarrow> (Inl error, w)
            | None \<Rightarrow> (Inl (new_Error ''TypeError: lastError is undefined''), w)))"
  by pat_completeness auto
termination
  by (relation "measure (\<lambda>(host, cfg, req, attempt, lastError, w). Suc (maxRetries cfg) - attempt)")
    auto

declare request_loop.simps [simp del]

definition request ::
  "('n, 'p) host \<Rightarrow> http_config \<Rightarrow> string \<Rightarrow> string \<Rightarrow> 'p request_options \<Rightarrow>
     ('n, 'p) world \<Rightarrow> (js_error + 'p) \<times> ('n, 'p) world" where
  "request host cfg method url options w =
     (let options' =
            (if toLowerCase method = ''get'' \<and> \<not> ignoreCache options then
               (case loadFromCache host url w of
                  Some cached \<Rightarrow>
                    (case etag (cache_headers cached) of
                       Some e \<Rightarrow>
                         if e \<noteq> [] \<and> \<not> ignoreEtag options
                         then options\<lparr>opt_headers := AList.update ''If-None-Match'' e (opt_headers options)\<rparr>
                         else options
                     | None \<Rightarrow> options)
                | None \<Rightarrow> options)
             else options)
      in request_loop host cfg
           \<lparr>req_method = method, req_url = url, req_options = options'\<rparr> 0 None w)"

definition http_get ::
  "('n, 'p) host \<Rightarrow> http_config \<Rightarrow> string \<Rightarrow> 'p request_options \<Rightarrow>
     ('n, 'p) world \<Rightarrow> (js_error + 'p) \<times> ('n, 'p) world" where
  "http_get host cfg url options w = request host cfg ''GET'' url options w"

definition http_post ::
  "('n, 'p) host \<Rightarrow> http_config \<Rightarrow> string \<Rightarrow> 'p \<Rightarrow> 'p request_options \<Rightarrow>
     ('n, 'p) world \<Rightarrow> (js_error + 'p) \<times> ('n, 'p) world" where
  "http_post host cfg url body options w =
     request host cfg ''POST'' url (options\<lparr>opt_data := Some body\<rparr>) w"

definition default_request_options :: "'p request_options" where
  "default_request_options =
     \<lparr>ignoreCache = False, ignoreEtag = False, opt_headers = [], opt_data = None\<rparr>"

text \<open>
  The outcomes of the axios calls made between two states of the world, in order.
\<close>

definition outcomes_since ::
  "('n, 'p) world \<Rightarrow> ('n, 'p) world \<Rightarrow> (js_error + 'p http_response) list" where
  "outcomes_since w w' = map snd (drop (length (calls w)) (calls w'))"

text \<open>
  A host for evaluating the client on concrete runs. The outside world is the number
  of axios calls made so far and the clock; the \<open>i\<close>-th call to axios gets the \<open>i\<close>-th
  outcome of the script (a connection error once the script is used up) and takes one
  millisecond; a timer advances the clock by its delay; \<open>Math.random()\<close> returns 0;
  the digest of a text is the text itself.
\<close>

definition scripted_host :: "(js_error + string http_response) list \<Rightarrow> (nat \<times> int, string) host" where
  "scripted_host script =
     \<lparr>date_now = (\<lambda>(i, t). t),
      math_random = (\<lambda>n. (0, n)),
      axios_request = (\<lambda>req (i, t).
         (if i < length script then script ! i else Inl (new_Error ''connect ECONNREFUSED''),
          (Suc i, t + 1))),
      set_timeout = (\<lambda>delay (i, t). (i, t + (case delay of Some d \<Rightarrow> \<lceil>d\<rceil> | None \<Rightarrow> 1))),
      sha256 = (\<lambda>s. s)\<rparr>"

definition fresh_world :: "int \<Rightarrow> (nat \<times> int, string) world" where
  "fresh_world t = \<lparr>env = (0, t), cache_files = Map.empty, cache_writable = True, calls = []\<rparr>"

definition http_failure :: "nat \<Rightarrow> js_error" where
  "http_failure st =
     \<lparr>message = ''Request failed'', code = None,
      response = Some \<lparr>status = st, headers = []\<rparr>\<rparr>"

definition demo_run :: "(js_error + string) \<times> (nat \<times> int, string) world" where
  "demo_run =
     request (scripted_host [Inl (http_failure 503), Inl (http_failure 503),
                Inr \<lparr>status = 200, headers = [], data = ''body''\<rparr>])
       (new_HttpClient no_options) ''GET'' ''http://mirror/a'' default_request_options
       (fresh_world 0)"

text \<open>
  How axios settles a request (its \<open>settle\<close> with the default \<open>validateStatus\<close>; the
  client creates its instance with \<open>axios.create({timeout, headers})\<close> and passes no
  \<open>validateStatus\<close>): an answer whose status is from 200 to 299 resolves the promise, an
  answer with any other status rejects it with an error that carries the response, and
  a failure without an answer is rejected as it is. \<open>error.code\<close> of such an error is
  not read by the client and is left out.
\<close>

definition validateStatus :: "nat \<Rightarrow> bool" where
  "validateStatus st = (200 \<le> st \<and> st < 300)"

definition settle :: "js_error + 'p http_response \<Rightarrow> js_error + 'p http_response" where
  "settle answer =
     (case answer of
        Inl error \<Rightarrow> Inl error
      | Inr resp \<Rightarrow>
          if validateStatus (status resp) then Inr resp
          else Inl \<lparr>message = ''Request failed with status code '' @ decimal (status resp),
                    code = None,
                    response = Some \<lparr>status = status resp, headers = headers resp\<rparr>\<rparr>)"

text \<open>
  Two sequential GETs of one URL, one hour apart, against a server that answers the
  first with 200, an ETag and the payload, and the second with 304 and no payload. The
  script holds the answers of the server; axios settles each.
\<close>

definition etag_server :: "(nat \<times> int, string) host" where
  "etag_server =
     scripted_host
       (map settle
          [Inr \<lparr>status = 200, headers = [(''etag'', ''v1'')], data = ''body''\<rparr>,
           Inr \<lparr>status = 304, headers = [], data = ''''\<rparr>])"

definition first_get :: "(js_error + string) \<times> (nat \<times> int, string) world" where
  "first_get =
     http_get etag_server (new_HttpClient no_options) ''http://mirror/a''
       default_request_options (fresh_world 0)"

definition second_get :: "(js_error + string) \<times> (nat \<times> int, string) world" where
  "second_get =
     http_get etag_server (new_HttpClient no_options) ''http://mirror/a''
       default_request_options ((snd first_get)\<lparr>env := (1, 3600001)\<rparr>)"
section \<open>Plain JavaScript objects used as dictionaries\<close>

text \<open>
  \<open>fetchAllSources\<close> collects the source files in an object \<open>sources = {}\<close>, and
  \<open>generateChecksums\<close> collects the digests in an object \<open>checksums = {}\<close>; both use the
  file path as the property name and store a string. Such an object is represented by
  its own properties, name and value, in the order in which they were created. Its
  prototype is \<open>Object.prototype\<close>, which defines the twelve names below: eleven
  functions, and the accessor \<open>__proto__\<close>.
\<close>

type_synonym js_object = "(string \<times> string) list"

definition object_prototype_names :: "string list" where
  "object_prototype_names =
     [''constructor'', ''__defineGetter__'', ''__defineSetter__'', ''hasOwnProperty'',
      ''__lookupGetter__'', ''__lookupSetter__'', ''isPrototypeOf'', ''propertyIsEnumerable'',
      ''toString'', ''valueOf'', ''__proto__'', ''toLocaleString'']"

text \<open>
  \<open>obj[k] = v\<close> for a string \<open>v\<close>. An own property \<open>k\<close> gets the new value and keeps
  its place; otherwise a property is created at the end, except under the name
  \<open>__proto__\<close>: there the assignment calls the setter of \<open>Object.prototype\<close>, which
  ignores a value that is neither an object nor \<open>null\<close>, and nothing is stored. (An
  object read by \<open>JSON.parse\<close> can have an own property of that name.)
\<close>

definition js_assign :: "js_object \<Rightarrow> string \<Rightarrow> string \<Rightarrow> js_object" where
  "js_assign obj k v =
     (if k = ''__proto__'' \<and> map_of obj k = None then obj else AList.update k v obj)"

text \<open>
  The value of \<open>obj[k]\<close>: the own property; failing that, what \<open>Object.prototype\<close>
  provides under that name (a function, or the prototype itself for \<open>__proto__\<close>);
  failing that, \<open>undefined\<close>. \<open>!obj[k]\<close> holds for \<open>undefined\<close> and for the empty string;
  functions and objects are truthy and are not \<open>===\<close> to any string.
\<close>

datatype js_property = Undefined | Text string | Builtin

definition js_read :: "js_object \<Rightarrow> string \<Rightarrow> js_property" where
  "js_read obj k =
     (case map_of obj k of
        Some v \<Rightarrow> Text v
      | None \<Rightarrow> if k \<in> set object_prototype_names then Builtin else Undefined)"

definition falsy :: "js_property \<Rightarrow> bool" where
  "falsy p = (p = Undefined \<or> p = Text [])"

text \<open>
  \<open>Object.entries(obj)\<close> and \<open>Object.keys(obj)\<close>: first the properties whose name is an
  array index (the decimal numeral, without leading zeros, of a number below
  \<open>2^32 - 1\<close>) in ascending numeric order, then the other properties in the order of
  their creation. \<open>index_value\<close> is the number a string of digits denotes.
\<close>

definition index_value :: "string \<Rightarrow> int" where
  "index_value k = foldl (\<lambda>acc c. acc * 10 + (of_char c - 48)) 0 k"

definition array_index :: "string \<Rightarrow> int option" where
  "array_index k =
     (if k \<noteq> [] \<and> list_all (char_in_range CHR ''0'' CHR ''9'') k
         \<and> (k = ''0'' \<or> hd k \<noteq> CHR ''0'') \<and> index_value k < 4294967295
      then Some (index_value k) else None)"

definition js_entries :: "js_object \<Rightarrow> (string \<times> string) list" where
  "js_entries obj =
     sort_key (\<lambda>kv. the (array_index (fst kv))) (filter (\<lambda>kv. array_index (fst kv) \<noteq> None) obj)
     @ filter (\<lambda>kv. array_index (fst kv) = None) obj"

definition js_keys :: "js_object \<Rightarrow> string list" where
  "js_keys obj = map fst (js_entries obj)"

section \<open>src/sourcify.js (src/unnamed/part_004)\<close>

text \<open>
  The client holds the mirrors (\<open>baseUrls\<close>) and the IPFS gateways; an option that is
  absent gives the default list (an empty array is truthy and is kept).
\<close>

record sourcify_client =
  baseUrls :: "string list"
  ipfsGateways :: "string list"

definition new_SourcefyClient :: "string list option \<Rightarrow> string list option \<Rightarrow> sourcify_client" where
  "new_SourcefyClient baseUrls_opt ipfsGateways_opt =
     \<lparr>baseUrls = (case baseUrls_opt of Some bs \<Rightarrow> bs | None \<Rightarrow> [''https://repo.sourcify.dev'']),
      ipfsGateways = (case ipfsGateways_opt of Some gs \<Rightarrow> gs | None \<Rightarrow> [''https://ipfs.io/ipfs''])\<rparr>"

text \<open>
  The metadata document, a JSON object: the fields the client reads. \<open>md_sources\<close> is the
  source-file manifest, the file paths in the order \<open>Object.keys\<close> lists them, each with
  its entry; \<open>None\<close> stands for a manifest that is absent or falsy.
\<close>

record 'i metadata =
  md_compiler_version :: "string option"
  md_sources :: "(string \<times> 'i) list option"

text \<open>The object \<open>{metadata, matchType, sourceUrl, fetchedAt}\<close> that \<open>fetchMetadata\<close> returns.\<close>

record 'i metadata_result =
  res_metadata :: "'i metadata"
  res_matchType :: string
  res_sourceUrl :: string
  res_fetchedAt :: js_date_string

definition getMetadataUrl ::
  "(string \<Rightarrow> string \<Rightarrow> string) \<Rightarrow> string \<Rightarrow> nat \<Rightarrow> string \<Rightarrow> string \<Rightarrow> js_error + string" where
  "getMetadataUrl openssl baseUrl chainId address matchType =
     (case toChecksumAddress openssl (JString address) of
        Inl e \<Rightarrow> Inl e
      | Inr checksumAddress \<Rightarrow>
          Inr (baseUrl @ ''/contracts/'' @ matchType @ ''_match/'' @ decimal chainId @ ''/''
               @ checksumAddress @ ''/metadata.json''))"


text \<open>
  The records the client writes to the logger: level, message, match type, and the
  URL or mirror the record names.
\<close>

datatype log_level = Debug | Info | Warn

type_synonym log_record = "log_level \<times> string \<times> string \<times> string"

text \<open>
  The \<open>catch\<close> block of \<open>fetchMetadata\<close>: the error becomes \<open>lastError\<close>; a 404 is
  logged at debug level and the loop continues; any other error is logged as a warning,
  and the loop continues as well.
\<close>

definition metadata_catch ::
  "string \<Rightarrow> string \<Rightarrow> js_error \<Rightarrow> 'w \<Rightarrow> log_record list \<Rightarrow> js_error option \<times> 'w \<times> log_record list" where
  "metadata_catch matchType baseUrl error w logs =
     (let lastError = Some error;
          status_opt = (case response error of Some r \<Rightarrow> Some (status r) | None \<Rightarrow> None)
      in if status_opt = Some 404
         then (lastError, w, logs @ [(Debug, ''Metadata not found'', matchType, baseUrl)])
         else (lastError, w, logs @ [(Warn, ''Failed to fetch metadata'', matchType, baseUrl)]))"

text \<open>
  The inner loop \<open>for (const baseUrl of this.baseUrls)\<close> of \<open>fetchMetadata\<close>. \<open>http\<close>
  is \<open>this.http.get\<close>, which reads and changes the world \<open>'w\<close>, and \<open>now\<close> reads the clock.
  The loop either returns from \<open>fetchMetadata\<close> (\<open>Inl\<close>) or runs to its end (\<open>Inr\<close>), in both
  cases with the world and the logs.
\<close>

fun fetchMetadata_mirrors ::
  "(string \<Rightarrow> string \<Rightarrow> string) \<Rightarrow> (string \<Rightarrow> 'w \<Rightarrow> (js_error + 'i metadata) \<times> 'w) \<Rightarrow> ('w \<Rightarrow> int) \<Rightarrow>
     nat \<Rightarrow> string \<Rightarrow> string \<Rightarrow> string list \<Rightarrow> js_error option \<Rightarrow> 'w \<Rightarrow> log_record list \<Rightarrow>
     ('i metadata_result \<times> 'w \<times> log_record list) + (js_error option \<times> 'w \<times> log_record list)" where
  "fetchMetadata_mirrors openssl http now chainId address matchType [] lastError w logs =
     Inr (lastError, w, logs)"
| "fetchMetadata_mirrors openssl http now chainId address matchType (baseUrl # rest) lastError w logs =
     (case getMetadataUrl openssl baseUrl chainId address matchType of
        Inl error \<Rightarrow>
          (case metadata_catch matchType baseUrl error w logs of
             (lastError', w', logs') \<Rightarrow>
               fetchMetadata_mirrors openssl http now chainId address matchType rest lastError' w' logs')
      | Inr url \<Rightarrow>
          (case http url w of
             (Inr md, w1) \<Rightarrow>
               Inl (\<lparr>res_metadata = md, res_matchType = matchType, res_sourceUrl = baseUrl,
                      res_fetchedAt = IsoTime (now w1)\<rparr>,
                    w1,
                    logs @ [(Debug, ''Fetching metadata'', matchType, url),
                           (Info, ''Successfully fetched metadata'', matchType, url)])
           | (Inl error, w1) \<Rightarrow>
               (case metadata_catch matchType baseUrl error w1
                       (logs @ [(Debug, ''Fetching metadata'', matchType, url)]) of
                  (lastError', w', logs') \<Rightarrow>
                    fetchMetadata_mirrors openssl http now chainId address matchType rest
                      lastError' w' logs')))"

text \<open>The outer loop \<open>for (const matchType of ['full', 'partial'])\<close>.\<close>

fun fetchMetadata_matchTypes ::
  "(string \<Rightarrow> string \<Rightarrow> string) \<Rightarrow> sourcify_client \<Rightarrow> (string \<Rightarrow> 'w \<Rightarrow> (js_error + 'i metadata) \<times> 'w) \<Rightarrow>
     ('w \<Rightarrow> int) \<Rightarrow> nat \<Rightarrow> string \<Rightarrow> string list \<Rightarrow> js_error option \<Rightarrow> 'w \<Rightarrow> log_record list \<Rightarrow>
     ('i metadata_result \<times> 'w \<times> log_record list) + (js_error option \<times> 'w \<times> log_record list)" where
  "fetchMetadata_matchTypes openssl client http now chainId address [] lastError w logs =
     Inr (lastError, w, logs)"
| "fetchMetadata_matchTypes openssl client http now chainId address (matchType # rest) lastError w logs =
     (case fetchMetadata_mirrors openssl http now chainId address matchType (baseUrls client)
             lastError w logs of
        Inl returned \<Rightarrow> Inl returned
      | Inr (lastError', w', logs') \<Rightarrow>
          fetchMetadata_matchTypes openssl client http now chainId address rest lastError' w' logs')"

text \<open>
  \<open>fetchMetadata(chainId, address)\<close>. \<open>lastError?.message\<close> of an undefined \<open>lastError\<close>
  prints as \<open>undefined\<close>.
\<close>

definition fetchMetadata ::
  "(string \<Rightarrow> string \<Rightarrow> string) \<Rightarrow> sourcify_client \<Rightarrow> (string \<Rightarrow> 'w \<Rightarrow> (js_error + 'i metadata) \<times> 'w) \<Rightarrow>
     ('w \<Rightarrow> int) \<Rightarrow> nat \<Rightarrow> string \<Rightarrow> 'w \<Rightarrow>
     (js_error + 'i metadata_result) \<times> 'w \<times> log_record list" where
  "fetchMetadata openssl client http now chainId address w =
     (if \<not> isValidChecksumAddress openssl (JString address)
      then (Inl (new_Error (''Invalid address format: '' @ address)), w, [])
      else
        (case fetchMetadata_matchTypes openssl client http now chainId address
                [''full'', ''partial''] None w [] of
           Inl (result, w', logs) \<Rightarrow> (Inr result, w', logs)
         | Inr (lastError, w', logs) \<Rightarrow>
             (Inl (new_Error (''Failed to fetch metadata for '' @ address @ '' on chain ''
                     @ decimal chainId @ '': ''
                     @ (case lastError of Some e \<Rightarrow> message e | None \<Rightarrow> ''undefined''))),
              w', logs)))"

text \<open>
  Values for evaluating the client on a concrete run: a \<open>this.http.get\<close> that answers
  from a table of URLs, fails with a connection error on any other URL, and counts the
  requests made; a client with two mirrors; and a first mirror that has the metadata of
  \<open>demo_address\<close> under the exact match.
\<close>

definition table_http :: "(string \<times> (js_error + 'm)) list \<Rightarrow> string \<Rightarrow> nat \<Rightarrow> (js_error + 'm) \<times> nat" where
  "table_http table url n =
     (case map_of table url of
        Some r \<Rightarrow> r
      | None \<Rightarrow> Inl (new_Error ''getaddrinfo ENOTFOUND''),
      Suc n)"

definition demo_client :: sourcify_client where
  "demo_client = new_SourcefyClient (Some [''https://m1'', ''https://m2'']) None"

definition demo_metadata :: "unit metadata" where
  "demo_metadata = \<lparr>md_compiler_version = Some ''0.8.19'', md_sources = Some [(''A.sol'', ())]\<rparr>"

definition demo_mirrors :: "(string \<times> (js_error + unit metadata)) list" where
  "demo_mirrors =
     [(''https://m1/contracts/full_match/1/0x1000000000000000000000000000000000000000/metadata.json'',
       Inr demo_metadata)]"



section \<open>src/archive.js (src/unnamed/part_009) and the fetch command (src/unnamed/part_010)\<close>

text \<open>
  The provenance document \<open>provenance.json\<close>, a JSON object; a property that is absent
  (or \<open>undefined\<close>, which \<open>JSON.stringify\<close> leaves out) is \<open>None\<close>.
\<close>

record tools_doc =
  tools_name :: "string option"
  tools_version :: "string option"

record provenance =
  firstSeenAt :: "js_date_string option"
  lastUpdatedAt :: "js_date_string option"
  tools :: "tools_doc option"
  sourcesUsed :: "string list option"
  fetchRunId :: "string option"
  commitHash :: "string option"
  operator :: "string option"
  orphaned :: "bool option"

text \<open>
  \<open>validateProvenance\<close>, compiled from \<open>provenanceSchema\<close> in src/schemas.js: the
  properties \<open>firstSeenAt\<close>, \<open>lastUpdatedAt\<close>, \<open>tools\<close> (with \<open>name\<close> and \<open>version\<close>) and
  \<open>sourcesUsed\<close> are required. The types the schema asks for are those of the record.
\<close>

definition validateProvenance :: "provenance \<Rightarrow> bool" where
  "validateProvenance p =
     (firstSeenAt p \<noteq> None \<and> lastUpdatedAt p \<noteq> None
      \<and> (case tools p of Some t \<Rightarrow> tools_name t \<noteq> None \<and> tools_version t \<noteq> None | None \<Rightarrow> False)
      \<and> sourcesUsed p \<noteq> None)"

text \<open>
  A file of the archive as \<open>fs.readFile\<close> and \<open>JSON.parse\<close> see it: reading fails with an
  error code, or the text is not JSON, or it is a provenance document. A path with no
  file is absent from the map, and reading it fails with \<open>ENOENT\<close>. JSON of another shape
  (not an object, or with a property of the wrong type) is not represented.
\<close>

datatype archive_file = Unreadable string | NotJson | ProvenanceDoc provenance

type_synonym archive = "string \<rightharpoonup> archive_file"

text \<open>\<open>path.join('archive', chainName, checksumAddress)\<close>, without path normalisation.\<close>

definition getArchiveDir :: "(string \<Rightarrow> string \<Rightarrow> string) \<Rightarrow> string \<Rightarrow> string \<Rightarrow> js_error + string" where
  "getArchiveDir openssl chainName address =
     (case toChecksumAddress openssl (JString address) of
        Inl e \<Rightarrow> Inl e
      | Inr checksumAddress \<Rightarrow> Inr (''archive/'' @ chainName @ ''/'' @ checksumAddress))"

record check_options =
  staleThreshold :: "int option"
  force :: bool

record provenance_check =
  pc_exists :: bool
  pc_provenance :: "provenance option"
  pc_isStale :: bool
  pc_shouldSkip :: bool

text \<open>
  The \<open>try\<close> block of \<open>checkProvenance\<close>: reading, parsing and validating throw; the
  result is the error thrown or the provenance read.
\<close>

definition read_provenance :: "archive \<Rightarrow> string \<Rightarrow> js_error + provenance" where
  "read_provenance files provenancePath =
     (case files provenancePath of
        None \<Rightarrow> Inl \<lparr>message = ''ENOENT: no such file or directory'', code = Some ''ENOENT'',
                     response = None\<rparr>
      | Some (Unreadable c) \<Rightarrow> Inl \<lparr>message = c, code = Some c, response = None\<rparr>
      | Some NotJson \<Rightarrow> Inl (new_Error ''SyntaxError: Unexpected token in JSON'')
      | Some (ProvenanceDoc p) \<Rightarrow>
          if validateProvenance p then Inr p else Inl (new_Error ''Invalid provenance''))"

text \<open>
  \<open>new Date(s).getTime()\<close>: the instant, or \<open>NaN\<close> (\<open>None\<close>). \<open>Date.now() - NaN > t\<close> is
  false.
\<close>

definition getTime :: "js_date_string \<Rightarrow> int option" where
  "getTime d = (case d of IsoTime t \<Rightarrow> Some t | NotADate s \<Rightarrow> None)"

definition checkProvenance ::
  "(string \<Rightarrow> string \<Rightarrow> string) \<Rightarrow> archive \<Rightarrow> int \<Rightarrow> string \<Rightarrow> string \<Rightarrow> check_options \<Rightarrow>
     js_error + provenance_check" where
  "checkProvenance openssl files now chainName address options =
     (case getArchiveDir openssl chainName address of
        Inl e \<Rightarrow> Inl e
      | Inr archiveDir \<Rightarrow>
          (case read_provenance files (archiveDir @ ''/provenance.json'') of
             Inr p \<Rightarrow>
               (let lastUpdated = (case lastUpdatedAt p of Some d \<Rightarrow> getTime d | None \<Rightarrow> None);
                    threshold = or_default (staleThreshold options) 0 (24 * 60 * 60 * 1000);
                    isStale = (case lastUpdated of Some t \<Rightarrow> now - t > threshold | None \<Rightarrow> False)
                in Inr \<lparr>pc_exists = True, pc_provenance = Some p, pc_isStale = isStale,
                         pc_shouldSkip = (\<not> isStale \<and> \<not> force options)\<rparr>)
           | Inl error \<Rightarrow>
               if code error = Some ''ENOENT''
               then Inr \<lparr>pc_exists = False, pc_provenance = None, pc_isStale = True,
                         pc_shouldSkip = False\<rparr>
               else Inl error))"

text \<open>
  \<open>createProvenance(options)\<close> at the time \<open>now\<close>. A string option is replaced by its
  default when it is absent or empty; an absent \<open>sourcesUsed\<close> gives the empty array.
  \<open>random_suffix\<close> is the text \<open>Math.random().toString(36).substr(2, 9)\<close> of
  \<open>generateRunId\<close>.
\<close>

record provenance_options =
  firstSeenAt_opt :: "js_date_string option"
  toolVersion_opt :: "string option"
  sourcesUsed_opt :: "string list option"
  fetchRunId_opt :: "string option"
  commitHash_opt :: "string option"
  operator_opt :: "string option"

definition decimal_int :: "int \<Rightarrow> string" where
  "decimal_int i = (if i < 0 then ''-'' @ decimal (nat (- i)) else decimal (nat i))"

definition generateRunId :: "int \<Rightarrow> string \<Rightarrow> string" where
  "generateRunId now random_suffix = ''run-'' @ decimal_int now @ ''-'' @ random_suffix"

definition truthy_date :: "js_date_string \<Rightarrow> bool" where
  "truthy_date d = (case d of IsoTime t \<Rightarrow> True | NotADate s \<Rightarrow> s \<noteq> [])"

definition createProvenance :: "provenance_options \<Rightarrow> int \<Rightarrow> string \<Rightarrow> provenance" where
  "createProvenance options now random_suffix =
     \<lparr>firstSeenAt =
        Some (case firstSeenAt_opt options of
                Some d \<Rightarrow> if truthy_date d then d else IsoTime now
              | None \<Rightarrow> IsoTime now),
      lastUpdatedAt = Some (IsoTime now),
      tools = Some \<lparr>tools_name = Some ''sourcify-grabber'',
                     tools_version = Some (or_default (toolVersion_opt options) [] ''2.0.0'')\<rparr>,
      sourcesUsed = Some (case sourcesUsed_opt options of Some l \<Rightarrow> l | None \<Rightarrow> []),
      fetchRunId =
        Some (or_default (fetchRunId_opt options) [] (generateRunId now random_suffix)),
      commitHash = commitHash_opt options,
      operator = Some (or_default (operator_opt options) [] ''automated''),
      orphaned = None\<rparr>"

text \<open>
  The provenance the fetch command builds after a successful fetch from \<open>source\<close>
  (\<open>'sourcify'\<close> or \<open>'explorer'\<close>):
  \<open>createProvenance({sourcesUsed: [source], firstSeenAt: provenanceCheck.provenance?.firstSeenAt})\<close>.
\<close>

definition fetch_provenance :: "provenance_check \<Rightarrow> string \<Rightarrow> int \<Rightarrow> string \<Rightarrow> provenance" where
  "fetch_provenance provenanceCheck source now random_suffix =
     createProvenance
       \<lparr>firstSeenAt_opt = (case pc_provenance provenanceCheck of
                              Some prior \<Rightarrow> firstSeenAt prior
                            | None \<Rightarrow> None),
        toolVersion_opt = None, sourcesUsed_opt = Some [source], fetchRunId_opt = None,
        commitHash_opt = None, operator_opt = None\<rparr>
       now random_suffix"

text \<open>
  The last step of \<open>persistContract\<close>: the provenance is validated and written to
  \<open>provenance.json\<close> (the write itself is taken to succeed).
\<close>

definition persist_provenance ::
  "(string \<Rightarrow> string \<Rightarrow> string) \<Rightarrow> archive \<Rightarrow> string \<Rightarrow> string \<Rightarrow> provenance \<Rightarrow> js_error + archive" where
  "persist_provenance openssl files chainName address p =
     (case getArchiveDir openssl chainName address of
        Inl e \<Rightarrow> Inl e
      | Inr archiveDir \<Rightarrow>
          if \<not> validateProvenance p then Inl (new_Error ''Invalid provenance'')
          else Inr (files(archiveDir @ ''/provenance.json'' \<mapsto> ProvenanceDoc p)))"



text \<open>
  Values for concrete runs: the options of a check without \<open>force\<close>, the result of a
  check that found no record, and a record written on 1 January by a fetch through the
  explorer (times in milliseconds).
\<close>

definition plain_check :: check_options where
  "plain_check = \<lparr>staleThreshold = None, force = False\<rparr>"

definition no_record :: provenance_check where
  "no_record = \<lparr>pc_exists = False, pc_provenance = None, pc_isStale = True, pc_shouldSkip = False\<rparr>"

definition explorer_record :: provenance where
  "explorer_record = fetch_provenance no_record ''explorer'' 1672531200000 ''k3j9x0q1z''"

definition found_explorer_record :: provenance_check where
  "found_explorer_record =
     \<lparr>pc_exists = True, pc_provenance = Some explorer_record, pc_isStale = True,
      pc_shouldSkip = False\<rparr>"

section \<open>src/checksum.js (src/unnamed/part_011)\<close>

text \<open>
  A directory as \<open>fs.readdir(dir, {withFileTypes: true})\<close> lists it: the entries in the
  order returned, each a regular file with its content, a directory with its entries,
  or something else (a link, a socket), which \<open>generateChecksums\<close> skips. Every read is
  taken to succeed.
\<close>

datatype fs_node = File string | Dir "(string \<times> fs_node) list" | Other

text \<open>
  \<open>scanDirectory\<close> inside \<open>generateChecksums(directoryPath)\<close>, with \<open>relativeTo\<close> equal to
  \<open>directoryPath\<close>: \<open>prefix\<close> is the path of the directory being scanned relative to the
  root, ending in \<open>/\<close> unless empty, so \<open>prefix @ name\<close> is
  \<open>path.relative(relativeTo, path.join(dirPath, name))\<close>. \<open>hashFile\<close> maps the content
  of a file to its SHA-256 digest in hexadecimal (\<open>sha256\<close> is a digest the runtime
  provides). \<open>checksums[relativePath] = ...\<close> is the assignment to a plain object.
\<close>

fun scanDirectory ::
  "(string \<Rightarrow> string) \<Rightarrow> string \<Rightarrow> (string \<times> fs_node) list \<Rightarrow> js_object \<Rightarrow> js_object" where
  "scanDirectory hashFile prefix [] checksums = checksums"
| "scanDirectory hashFile prefix ((name, File content) # entries) checksums =
     scanDirectory hashFile prefix entries (js_assign checksums (prefix @ name) (hashFile content))"
| "scanDirectory hashFile prefix ((name, Dir sub) # entries) checksums =
     scanDirectory hashFile prefix entries
       (scanDirectory hashFile (prefix @ name @ ''/'') sub checksums)"
| "scanDirectory hashFile prefix ((name, Other) # entries) checksums =
     scanDirectory hashFile prefix entries checksums"

definition generateChecksums :: "(string \<Rightarrow> string) \<Rightarrow> (string \<times> fs_node) list \<Rightarrow> js_object" where
  "generateChecksums hashFile directory = scanDirectory hashFile [] directory []"

text \<open>
  The result of \<open>verifyChecksums\<close>; a mismatch is \<open>{file, expected, actual}\<close>, where
  \<open>expected\<close> is whatever \<open>expectedChecksums[currentFile]\<close> gave.
\<close>

record verification =
  valid :: bool
  missingFiles :: "string list"
  extraFiles :: "string list"
  mismatchedFiles :: "(string \<times> js_property \<times> string) list"

text \<open>The loop over \<open>Object.keys(expectedChecksums)\<close>, from the list of the keys.\<close>

fun check_missing :: "js_object \<Rightarrow> string list \<Rightarrow> verification \<Rightarrow> verification" where
  "check_missing currentChecksums [] results = results"
| "check_missing currentChecksums (expectedFile # rest) results =
     check_missing currentChecksums rest
       (if falsy (js_read currentChecksums expectedFile)
        then results\<lparr>missingFiles := missingFiles results @ [expectedFile], valid := False\<rparr>
        else results)"

text \<open>The loop over \<open>Object.entries(currentChecksums)\<close>, from the list of the entries.\<close>

fun check_current :: "js_object \<Rightarrow> (string \<times> string) list \<Rightarrow> verification \<Rightarrow> verification" where
  "check_current expectedChecksums [] results = results"
| "check_current expectedChecksums ((currentFile, currentHash) # rest) results =
     check_current expectedChecksums rest
       (if falsy (js_read expectedChecksums currentFile)
        then results\<lparr>extraFiles := extraFiles results @ [currentFile]\<rparr>
        else if js_read expectedChecksums currentFile \<noteq> Text currentHash
        then results\<lparr>mismatchedFiles := mismatchedFiles results @
                 [(currentFile, js_read expectedChecksums currentFile, currentHash)],
               valid := False\<rparr>
        else results)"

definition verifyChecksums ::
  "(string \<Rightarrow> string) \<Rightarrow> (string \<times> fs_node) list \<Rightarrow> js_object \<Rightarrow> verification" where
  "verifyChecksums hashFile directory expectedChecksums =
     (let currentChecksums = generateChecksums hashFile directory;
          results = \<lparr>valid = True, missingFiles = [], extraFiles = [], mismatchedFiles = []\<rparr>
      in check_current expectedChecksums (js_entries currentChecksums)
           (check_missing currentChecksums (js_keys expectedChecksums) results))"

text \<open>
  The regular files of a directory, each with its relative path and its content, in
  the order \<open>scanDirectory\<close> reaches them.
\<close>

fun files_of :: "string \<Rightarrow> (string \<times> fs_node) list \<Rightarrow> (string \<times> string) list" where
  "files_of prefix [] = []"
| "files_of prefix ((name, File content) # entries) = (prefix @ name, content) # files_of prefix entries"
| "files_of prefix ((name, Dir sub) # entries) =
     files_of (prefix @ name @ ''/'') sub @ files_of prefix entries"
| "files_of prefix ((name, Other) # entries) = files_of prefix entries"

text \<open>The assignment \<open>checksums[relativePath] = await hashFile(fullPath)\<close> for one file.\<close>

definition record_hash :: "(string \<Rightarrow> string) \<Rightarrow> js_object \<Rightarrow> string \<times> string \<Rightarrow> js_object" where
  "record_hash hashFile checksums pc = js_assign checksums (fst pc) (hashFile (snd pc))"

text \<open>
  Values for a concrete run: a digest for evaluation that is never empty and differs
  for different contents (the content behind a tag), an archive directory with a
  nested directory, and the same directory after \<open>abi.json\<close> has been rewritten.
\<close>

definition tag_digest :: "string \<Rightarrow> string" where
  "tag_digest content = ''sha256:'' @ content"

definition demo_directory :: "(string \<times> fs_node) list" where
  "demo_directory =
     [(''abi.json'', File ''[]''),
      (''source'', Dir [(''A.sol'', File ''contract A {}'')]),
      (''lock'', Other)]"

definition demo_directory_changed :: "(string \<times> fs_node) list" where
  "demo_directory_changed =
     [(''abi.json'', File ''[{}]''),
      (''source'', Dir [(''A.sol'', File ''contract A {}'')]),
      (''lock'', Other)]"

text \<open>
  Rewriting one regular file: \<open>rewrite_file path content' directory\<close> is the directory
  in which the file reached by the names \<open>path\<close> has the content \<open>content'\<close> and
  everything else is as before; \<open>None\<close> when the names do not lead to a regular file.
  \<open>path_join\<close> is the relative path of the file.
\<close>

fun path_join :: "string list \<Rightarrow> string" where
  "path_join [] = []"
| "path_join [n] = n"
| "path_join (n # m # ns) = n @ ''/'' @ path_join (m # ns)"

fun rewrite_file ::
  "string list \<Rightarrow> string \<Rightarrow> (string \<times> fs_node) list \<Rightarrow> (string \<times> fs_node) list option" where
  "rewrite_file [] content' entries = None"
| "rewrite_file (n # ns) content' [] = None"
| "rewrite_file (n # ns) content' ((name, node) # entries) =
     (if name = n then
        (case node of
           File content \<Rightarrow> if ns = [] then Some ((name, File content') # entries) else None
         | Dir sub \<Rightarrow>
             if ns = [] then None
             else map_option (\<lambda>sub'. (name, Dir sub') # entries) (rewrite_file ns content' sub)
         | Other \<Rightarrow> None)
      else map_option ((#) (name, node)) (rewrite_file (n # ns) content' entries))"

section \<open>Properties of src/utils/address.js\<close>

lemma createHash_keccak256:
  "createHash openssl ''keccak256'' = Inl (new_Error ''Digest method not supported'')"
  by (simp add: createHash_def)

lemma createHash_sha256:
  "createHash openssl ''sha256'' = Inr (openssl ''sha256'')"
  "createHash openssl ''sha3-256'' = Inr (openssl ''sha3-256'')"
  by (simp_all add: createHash_def)

text \<open>
  The loop of \<open>toChecksumAddress\<close> raises the letters that the digest selects and
  leaves every other character as it is. Whatever the digest, it maps the forty digits
  of \<open>demo_address\<close> to \<open>demo_address\<close>: that address is its own checksummed form.
\<close>

lemma checksum_loop_unfold:
  "checksum_loop h cs i acc =
     acc @ map (\<lambda>j. if hash_digit_ge_8 h j then toUpperCase_char (cs ! j) else cs ! j)
             [i ..< length cs]"
proof (induction h cs i acc rule: checksum_loop.induct)
  case (1 h cs i acc)
  show ?case
  proof (cases "i < length cs")
    case True
    then show ?thesis
      using "1.IH" by (subst checksum_loop.simps) (simp add: upt_conv_Cons)
  next
    case False
    then show ?thesis
      by (subst checksum_loop.simps) simp
  qed
qed

lemma checksum_loop_caseless:
  assumes "\<forall>c \<in> set cs. toUpperCase_char c = c"
  shows "checksum_loop h cs 0 acc = acc @ cs"
proof -
  have "map (\<lambda>j. if hash_digit_ge_8 h j then toUpperCase_char (cs ! j) else cs ! j) [0 ..< length cs]
        = map (\<lambda>j. cs ! j) [0 ..< length cs]"
    using assms by (intro map_cong) auto
  then show ?thesis
    by (simp add: checksum_loop_unfold map_nth)
qed

lemma demo_address_is_checksummed:
  "checksum_loop h (replace_first ''0x'' [] (toLowerCase demo_address)) 0 ''0x'' = demo_address"
proof -
  have "replace_first ''0x'' [] (toLowerCase demo_address)
          = ''1000000000000000000000000000000000000000''"
    unfolding demo_address_def by code_simp
  moreover have "\<forall>c \<in> set ''1000000000000000000000000000000000000000''. toUpperCase_char c = c"
    by code_simp
  ultimately show ?thesis
    by (simp add: checksum_loop_caseless demo_address_def)
qed

lemma lower_hex_char_facts:
  assumes "lower_hex_char c"
  shows "toLowerCase_char c = c" "c \<noteq> CHR ''x''" "is_hex_digit_i c"
  using assms
  by (auto simp: lower_hex_char_def toLowerCase_char_def is_hex_digit_i_def
      char_in_range_def char_of_eq_iff take_bit_eq_mod)

lemma hex_digit_lowered:
  "is_hex_digit_i c \<Longrightarrow> lower_hex_char (toLowerCase_char c)"
  by (auto simp: lower_hex_char_def toLowerCase_char_def is_hex_digit_i_def
      char_in_range_def split: if_splits)

lemma replace_first_0x_absent: "CHR ''x'' \<notin> set s \<Longrightarrow> replace_first ''0x'' [] s = s"
proof (induction s)
  case Nil
  then show ?case by simp
next
  case (Cons c cs)
  then show ?case by (cases cs) auto
qed

text \<open>Every address in the sense of the specification passes the format test.\<close>

lemma hex40_address_passes_format_test:
  assumes "hex40_address s"
  shows "matches_hex40 (replace_first ''0x'' [] (toLowerCase s))"
  using assms unfolding hex40_address_def
proof
  assume m: "matches_hex40 s"
  then have low: "\<forall>c \<in> set (toLowerCase s). lower_hex_char c"
    by (auto simp: matches_hex40_def list_all_iff toLowerCase_def hex_digit_lowered)
  then have "CHR ''x'' \<notin> set (toLowerCase s)"
    using lower_hex_char_facts(2) by blast
  then have "replace_first ''0x'' [] (toLowerCase s) = toLowerCase s"
    by (rule replace_first_0x_absent)
  moreover have "matches_hex40 (toLowerCase s)"
    using m low by (simp add: matches_hex40_def list_all_iff toLowerCase_def lower_hex_char_facts(3))
  ultimately show ?thesis by simp
next
  assume p: "take 2 s = ''0x'' \<and> matches_hex40 (drop 2 s)"
  then have s: "s = ''0x'' @ drop 2 s" by (metis append_take_drop_id)
  have "toLowerCase ''0x'' = ''0x''" by code_simp
  then have "toLowerCase s = ''0x'' @ toLowerCase (drop 2 s)"
    by (subst s) (simp add: toLowerCase_def)
  then have "replace_first ''0x'' [] (toLowerCase s) = toLowerCase (drop 2 s)" by simp
  moreover have "matches_hex40 (toLowerCase (drop 2 s))"
    using p by (auto simp: matches_hex40_def list_all_iff toLowerCase_def
        hex_digit_lowered lower_hex_char_facts(3))
  ultimately show ?thesis by simp
qed

text \<open>
  \<open>toChecksumAddress\<close> throws on every argument: the type error for a value that is not
  a string, the format error for a text that fails the format test, and the error of
  \<open>crypto.createHash\<close> for every text that passes it.
\<close>

lemma toChecksumAddress_throws:
  "toChecksumAddress openssl address =
     Inl (new_Error
       (case address of
          NonString \<Rightarrow> ''Address must be a string''
        | JString a \<Rightarrow>
            if matches_hex40 (replace_first ''0x'' [] (toLowerCase a))
            then ''Digest method not supported'' else ''Invalid address format''))"
  by (simp add: toChecksumAddress_def createHash_keccak256 Let_def split: js_value.splits)

lemma toChecksumAddress_of_address:
  "hex40_address s \<Longrightarrow>
     toChecksumAddress openssl (JString s) = Inl (new_Error ''Digest method not supported'')"
  by (simp add: toChecksumAddress_throws hex40_address_passes_format_test)

lemma isValidChecksumAddress_never: "\<not> isValidChecksumAddress openssl address"
  by (simp add: isValidChecksumAddress_def toChecksumAddress_throws)

text \<open>
  The format test removes the first \<open>0x\<close> wherever it stands, so it also passes texts
  that are no addresses, such as the digit 1, then \<open>0x\<close>, then 39 zeros.
\<close>

lemma format_test_inner_prefix:
  "matches_hex40 (replace_first ''0x'' [] (toLowerCase ''10x000000000000000000000000000000000000000''))
   \<and> \<not> hex40_address ''10x000000000000000000000000000000000000000''"
  by code_simp

text \<open>
  Claim C10, evaluated at the address of test/address.test.js and at \<open>demo_address\<close>.
  Both are addresses in the sense of the claim, and \<open>demo_address\<close>, having no letter, is
  its own checksummed form. The claim says that \<open>toChecksumAddress\<close> returns a value on
  them and that the value satisfies \<open>isValidChecksumAddress\<close>. The code throws
  \<open>Digest method not supported\<close>, and \<open>isValidChecksumAddress\<close> is false on every
  argument, also on a checksummed address.
\<close>

theorem C10_toChecksumAddress_throws_on_addresses:
  "hex40_address test_address
   \<and> toChecksumAddress openssl (JString test_address)
       = Inl (new_Error ''Digest method not supported'')
   \<and> hex40_address demo_address
   \<and> toChecksumAddress openssl (JString demo_address)
       = Inl (new_Error ''Digest method not supported'')
   \<and> isValidChecksumAddress openssl (JString demo_address) = False
   \<and> (\<forall>address. \<exists>error. toChecksumAddress openssl address = Inl error)
   \<and> (\<forall>address. isValidChecksumAddress openssl address = False)"
proof -
  have a: "hex40_address test_address" "hex40_address demo_address"
    unfolding test_address_def demo_address_def by code_simp+
  have "\<forall>address. \<exists>error. toChecksumAddress openssl address = Inl error"
    by (simp add: toChecksumAddress_throws)
  with a show ?thesis
    by (simp add: toChecksumAddress_of_address isValidChecksumAddress_never)
qed
section \<open>Properties of src/http.js\<close>

lemma default_config [simp]:
  "new_HttpClient no_options =
     \<lparr>timeout = 30000, maxRetries = 3, retryDelay = 1000, maxRetryDelay = 10000,
      userAgent = ''sourcify-grabber/1.0.0''\<rparr>"
  by (simp add: new_HttpClient_def no_options_def or_default_def DEFAULT_TIMEOUT_def
      DEFAULT_MAX_RETRIES_def DEFAULT_RETRY_DELAY_def DEFAULT_MAX_RETRY_DELAY_def)



lemma calls_saveToCache [simp]: "calls (saveToCache host url d h w) = calls w"
  by (simp add: saveToCache_def Let_def)

lemma calls_on_response:
  "on_response host method url resp w = (res, w') \<Longrightarrow> calls w' = calls w \<and> (\<exists>d. res = Inr d)"
  by (auto simp: on_response_def split: option.splits if_splits)

lemma request_loop_step:
  assumes "attempt \<le> maxRetries cfg"
    and "axios_request host req (env w) = (outcome, n1)"
  shows "request_loop host cfg req attempt lastError w =
     (case outcome of
        Inr resp \<Rightarrow> on_response host (req_method req) (req_url req) resp
                     (w\<lparr>env := n1, calls := calls w @ [(req, outcome)]\<rparr>)
      | Inl error \<Rightarrow>
          if attempt = maxRetries cfg \<or> \<not> isRetryableError error
          then (Inl error, w\<lparr>env := n1, calls := calls w @ [(req, outcome)]\<rparr>)
          else request_loop host cfg req (Suc attempt) (Some error)
                 (w\<lparr>calls := calls w @ [(req, outcome)],
                    env := set_timeout host (fst (retry_delay host cfg error attempt n1))
                             (snd (retry_delay host cfg error attempt n1))\<rparr>))"
  using assms
  by (subst request_loop.simps) (simp add: Let_def split: sum.splits prod.splits)

lemma request_loop_attempts:
  assumes "maxRetries cfg - attempt = k" and "attempt \<le> maxRetries cfg"
    and "request_loop host cfg req attempt lastError w = (res, w')"
  shows "\<exists>new. calls w' = calls w @ map (Pair req) new
           \<and> 1 \<le> length new \<and> length new \<le> Suc k
           \<and> (\<forall>i. Suc i < length new \<longrightarrow> (\<exists>e. new ! i = Inl e \<and> isRetryableError e))
           \<and> (case last new of
                 Inl e \<Rightarrow> res = Inl e \<and> (isRetryableError e \<longrightarrow> length new = Suc k)
               | Inr resp \<Rightarrow> (\<exists>d. res = Inr d))"
  using assms
proof (induction k arbitrary: attempt lastError w)
  case 0
  obtain outcome n1 where ax: "axios_request host req (env w) = (outcome, n1)"
    by (cases "axios_request host req (env w)")
  from 0 have at: "attempt = maxRetries cfg" by simp
  show ?case
  proof (cases outcome)
    case (Inl error)
    with "0.prems"(3) at request_loop_step [OF "0.prems"(2) ax, of lastError]
    have "res = Inl error" "calls w' = calls w @ [(req, outcome)]"
      by auto
    with Inl show ?thesis
      by (intro exI [of _ "[outcome]"]) simp
  next
    case (Inr resp)
    with "0.prems"(3) request_loop_step [OF "0.prems"(2) ax, of lastError]
    have "on_response host (req_method req) (req_url req) resp
                     (w\<lparr>env := n1, calls := calls w @ [(req, outcome)]\<rparr>) = (res, w')"
      by simp
    from calls_on_response [OF this] Inr show ?thesis
      by (intro exI [of _ "[outcome]"]) simp
  qed
next
  case (Suc k)
  obtain outcome n1 where ax: "axios_request host req (env w) = (outcome, n1)"
    by (cases "axios_request host req (env w)")
  from Suc.prems have lt: "attempt < maxRetries cfg" and k: "maxRetries cfg - Suc attempt = k"
    by simp_all
  show ?case
  proof (cases outcome)
    case (Inr resp)
    with Suc.prems(3) request_loop_step [OF Suc.prems(2) ax, of lastError]
    have "on_response host (req_method req) (req_url req) resp
                     (w\<lparr>env := n1, calls := calls w @ [(req, outcome)]\<rparr>) = (res, w')"
      by simp
    from calls_on_response [OF this] Inr show ?thesis
      by (intro exI [of _ "[outcome]"]) simp
  next
    case (Inl error)
    show ?thesis
    proof (cases "isRetryableError error")
      case False
      with Suc.prems(3) Inl request_loop_step [OF Suc.prems(2) ax, of lastError]
      have "res = Inl error" "calls w' = calls w @ [(req, outcome)]"
        by auto
      with Inl False show ?thesis
        by (intro exI [of _ "[outcome]"]) simp
    next
      case True
      define w2 where "w2 = w\<lparr>calls := calls w @ [(req, outcome)],
                    env := set_timeout host (fst (retry_delay host cfg error attempt n1))
                             (snd (retry_delay host cfg error attempt n1))\<rparr>"
      from True lt Suc.prems(3) Inl request_loop_step [OF Suc.prems(2) ax, of lastError]
      have rec: "request_loop host cfg req (Suc attempt) (Some error) w2 = (res, w')"
        by (simp add: w2_def)
      from lt have le: "Suc attempt \<le> maxRetries cfg" by simp
      from Suc.IH [OF k le rec] obtain new where new:
        "calls w' = calls w2 @ map (Pair req) new" "1 \<le> length new" "length new \<le> Suc k"
        "\<forall>i. Suc i < length new \<longrightarrow> (\<exists>e. new ! i = Inl e \<and> isRetryableError e)"
        "case last new of
           Inl e \<Rightarrow> res = Inl e \<and> (isRetryableError e \<longrightarrow> length new = Suc k)
         | Inr resp \<Rightarrow> (\<exists>d. res = Inr d)"
        by blast
      from new(2) have ne: "new \<noteq> []" by auto
      have early: "\<forall>i. Suc i < length (outcome # new) \<longrightarrow>
                    (\<exists>e. (outcome # new) ! i = Inl e \<and> isRetryableError e)"
      proof (intro allI impI)
        fix i assume i: "Suc i < length (outcome # new)"
        show "\<exists>e. (outcome # new) ! i = Inl e \<and> isRetryableError e"
        proof (cases i)
          case 0
          with Inl True show ?thesis by simp
        next
          case (Suc j)
          with i new(4) show ?thesis by simp
        qed
      qed
      have "calls w' = calls w @ map (Pair req) (outcome # new)"
        using new(1) by (simp add: w2_def)
      moreover have "1 \<le> length (outcome # new)" "length (outcome # new) \<le> Suc (Suc k)"
        using new(3) by simp_all
      moreover have "case last (outcome # new) of
           Inl e \<Rightarrow> res = Inl e \<and> (isRetryableError e \<longrightarrow> length (outcome # new) = Suc (Suc k))
         | Inr resp \<Rightarrow> (\<exists>d. res = Inr d)"
        using new(5) ne by (auto split: sum.splits)
      ultimately show ?thesis
        using early by (intro exI [of _ "outcome # new"]) blast
    qed
  qed
qed


text \<open>
  Claim C2, as the code has it. One call of \<open>request\<close> only appends to the list of axios
  calls, and the outcomes it appends satisfy: there is at least one attempt and at most
  \<open>maxRetries + 1\<close> (four with the default \<open>maxRetries = 3\<close>); every attempt that is
  followed by another one failed with a retryable error; when the last attempt failed,
  \<open>request\<close> throws that very error, and if that error is retryable then all
  \<open>maxRetries + 1\<close> attempts were made (so a non-retryable error ends the request at once,
  and a retryable one is retried as long as attempts remain); when the last attempt
  succeeded, \<open>request\<close> returns a payload. An error is retryable iff it has no response
  or its status is at least 500 or equal to 429.
\<close>

theorem C2_request_attempts:
  assumes "request host cfg method url options w = (res, w')"
  shows "take (length (calls w)) (calls w') = calls w
       \<and> 1 \<le> length (outcomes_since w w')
       \<and> length (outcomes_since w w') \<le> maxRetries cfg + 1
       \<and> maxRetries (new_HttpClient no_options) + 1 = 4
       \<and> (\<forall>i. Suc i < length (outcomes_since w w') \<longrightarrow>
             (\<exists>e. outcomes_since w w' ! i = Inl e \<and> isRetryableError e))
       \<and> (\<forall>e. last (outcomes_since w w') = Inl e \<longrightarrow>
             res = Inl e \<and>
             (isRetryableError e \<longrightarrow> length (outcomes_since w w') = maxRetries cfg + 1))
       \<and> (\<forall>r. last (outcomes_since w w') = Inr r \<longrightarrow> (\<exists>d. res = Inr d))
       \<and> (\<forall>e. isRetryableError e =
             (response e = None \<or>
              (\<exists>r. response e = Some r \<and> (500 \<le> status r \<or> status r = 429))))"
proof -
  from assms obtain req where
    loop: "request_loop host cfg req 0 None w = (res, w')"
    by (simp add: request_def Let_def)
  from request_loop_attempts [OF _ _ loop, of "maxRetries cfg"] obtain new where new:
    "calls w' = calls w @ map (Pair req) new" "1 \<le> length new" "length new \<le> Suc (maxRetries cfg)"
    "\<forall>i. Suc i < length new \<longrightarrow> (\<exists>e. new ! i = Inl e \<and> isRetryableError e)"
    "case last new of
       Inl e \<Rightarrow> res = Inl e \<and> (isRetryableError e \<longrightarrow> length new = Suc (maxRetries cfg))
     | Inr resp \<Rightarrow> (\<exists>d. res = Inr d)"
    by auto
  from new(1) have outs: "outcomes_since w w' = new"
    by (simp add: outcomes_since_def comp_def)
  have "take (length (calls w)) (calls w') = calls w"
    using new(1) by simp
  moreover have "\<forall>e. isRetryableError e =
             (response e = None \<or>
              (\<exists>r. response e = Some r \<and> (500 \<le> status r \<or> status r = 429)))"
    by (auto simp: isRetryableError_def split: option.splits)
  moreover have "\<forall>e. last new = Inl e \<longrightarrow>
             res = Inl e \<and> (isRetryableError e \<longrightarrow> length new = maxRetries cfg + 1)"
    using new(5) by (auto split: sum.splits)
  moreover have "\<forall>r. last new = Inr r \<longrightarrow> (\<exists>d. res = Inr d)"
    using new(5) by (auto split: sum.splits)
  ultimately show ?thesis
    unfolding outs using new(2,3,4) by simp
qed

text \<open>
  Claim C2 as stated fails: with the default configuration and a server that cannot be
  reached, \<open>request\<close> makes four attempts, not at most three.
\<close>

theorem C2_default_makes_four_attempts:
  "length (outcomes_since (fresh_world 0)
     (snd (request (scripted_host []) (new_HttpClient no_options) ''GET'' ''http://mirror/a''
        default_request_options (fresh_world 0)))) = 4"
  by code_simp

text \<open>
  A run of the default client against a server that answers 503, 503, 200: three
  attempts, the first two failed with a retryable error, and the payload is returned.
\<close>

theorem C2_request_attempts_witness:
  "length (outcomes_since (fresh_world 0) (snd demo_run)) = 3
   \<and> length (outcomes_since (fresh_world 0) (snd demo_run))
        \<le> maxRetries (new_HttpClient no_options) + 1
   \<and> (\<exists>e. outcomes_since (fresh_world 0) (snd demo_run) ! 0 = Inl e \<and> isRetryableError e)
   \<and> (\<exists>e. outcomes_since (fresh_world 0) (snd demo_run) ! 1 = Inl e \<and> isRetryableError e)
   \<and> fst demo_run = Inr ''body''"
proof -
  have run: "request (scripted_host [Inl (http_failure 503), Inl (http_failure 503),
              Inr \<lparr>status = 200, headers = [], data = ''body''\<rparr>])
       (new_HttpClient no_options) ''GET'' ''http://mirror/a'' default_request_options (fresh_world 0)
       = (fst demo_run, snd demo_run)"
    by (simp add: demo_run_def)
  have outs: "outcomes_since (fresh_world 0) (snd demo_run) =
        [Inl (http_failure 503), Inl (http_failure 503),
         Inr \<lparr>status = 200, headers = [], data = ''body''\<rparr>]"
    and res: "fst demo_run = Inr ''body''"
    unfolding demo_run_def by code_simp+
  from C2_request_attempts [OF run]
  have bound: "length (outcomes_since (fresh_world 0) (snd demo_run))
                 \<le> maxRetries (new_HttpClient no_options) + 1"
    and early: "\<forall>i. Suc i < length (outcomes_since (fresh_world 0) (snd demo_run)) \<longrightarrow>
             (\<exists>e. outcomes_since (fresh_world 0) (snd demo_run) ! i = Inl e \<and> isRetryableError e)"
    by blast+
  from early have "Suc 0 < length (outcomes_since (fresh_world 0) (snd demo_run)) \<longrightarrow>
             (\<exists>e. outcomes_since (fresh_world 0) (snd demo_run) ! 0 = Inl e \<and> isRetryableError e)"
    and "Suc 1 < length (outcomes_since (fresh_world 0) (snd demo_run)) \<longrightarrow>
             (\<exists>e. outcomes_since (fresh_world 0) (snd demo_run) ! 1 = Inl e \<and> isRetryableError e)"
    by blast+
  with bound res show ?thesis
    by (simp add: outs)
qed

lemma toLowerCase_GET [simp]: "toLowerCase ''GET'' = ''get''"
  by code_simp

text \<open>
  What axios resolves with has a status from 200 to 299; in particular the branch
  \<open>response.status === 304\<close> of \<open>request\<close> is never taken for an outcome of \<open>settle\<close>.
\<close>

lemma settle_resolves:
  "settle answer = Inr resp \<Longrightarrow> 200 \<le> status resp \<and> status resp < 300 \<and> answer = Inr resp"
  by (auto simp: settle_def validateStatus_def split: sum.splits if_splits)

lemma settle_not_modified:
  assumes "status resp = 304"
  shows "settle (Inr resp) =
           Inl \<lparr>message = ''Request failed with status code 304'', code = None,
                response = Some \<lparr>status = 304, headers = headers resp\<rparr>\<rparr>"
proof -
  have "decimal 304 = ''304''" by code_simp
  with assms show ?thesis
    by (simp add: settle_def validateStatus_def)
qed

text \<open>
  A request whose first answer is 304 throws the rejection of axios after that one
  call: the error carries a response whose status is neither 429 nor 500 or more, so it
  is not retried. The cache is not consulted.
\<close>

lemma request_loop_not_modified:
  assumes "axios_request host req (env w) = (settle (Inr resp), n1)" and "status resp = 304"
  shows "request_loop host cfg req 0 lastError w =
           (Inl \<lparr>message = ''Request failed with status code 304'', code = None,
                  response = Some \<lparr>status = 304, headers = headers resp\<rparr>\<rparr>,
            w\<lparr>env := n1,
               calls := calls w @
                 [(req, Inl \<lparr>message = ''Request failed with status code 304'', code = None,
                             response = Some \<lparr>status = 304, headers = headers resp\<rparr>\<rparr>)]\<rparr>)"
  using request_loop_step [of 0 cfg host req w "settle (Inr resp)" n1 lastError] assms
  by (simp add: settle_not_modified isRetryableError_def)

text \<open>
  Claim C7, evaluated on two sequential GETs of one URL, one hour apart, to a server
  that answers the first with 200, the ETag \<open>v1\<close> and the payload \<open>body\<close>, and the second
  with 304. The claim says that one request is issued in total and that the second GET
  returns \<open>body\<close>. In the code the first GET returns \<open>body\<close> and stores it; the second
  GET issues a second request, which carries \<open>If-None-Match: v1\<close>; axios rejects the
  304 answer, and the second GET throws that error instead of returning the cached
  payload.
\<close>

theorem C7_not_modified_is_thrown:
  "fst first_get = Inr ''body''
   \<and> map (\<lambda>c. opt_headers (req_options (fst c))) (calls (snd second_get))
       = [[], [(''If-None-Match'', ''v1'')]]
   \<and> map snd (calls (snd second_get))
       = [Inr \<lparr>status = 200, headers = [(''etag'', ''v1'')], data = ''body''\<rparr>,
          Inl \<lparr>message = ''Request failed with status code 304'', code = None,
               response = Some \<lparr>status = 304, headers = []\<rparr>\<rparr>]
   \<and> fst second_get
       = Inl \<lparr>message = ''Request failed with status code 304'', code = None,
              response = Some \<lparr>status = 304, headers = []\<rparr>\<rparr>"
  unfolding second_get_def first_get_def by code_simp
section \<open>Properties of src/sourcify.js\<close>

lemma getMetadataUrl_throws:
  "\<exists>error. getMetadataUrl openssl baseUrl chainId address matchType = Inl error"
  by (simp add: getMetadataUrl_def toChecksumAddress_throws)


lemma fetchMetadata_throws:
  "fetchMetadata openssl client http now chainId address w
     = (Inl (new_Error (''Invalid address format: '' @ address)), w, [])"
  by (simp add: fetchMetadata_def isValidChecksumAddress_never)

text \<open>
  Claim C1, evaluated at \<open>demo_address\<close> on chain 1 with the mirrors \<open>https://m1\<close> and
  \<open>https://m2\<close>, the first of which answers the exact-match URL with the metadata.
  \<open>demo_address\<close> is an address, and a checksummed one since it has no letter. The claim
  says that \<open>fetchMetadata\<close> requests the exact match at the first mirror and returns
  its answer. The code throws \<open>Invalid address format\<close> without requesting anything
  (the state of the transport is as before, and nothing is logged), because
  \<open>isValidChecksumAddress\<close> is false: \<open>toChecksumAddress\<close> throws inside it. It does so
  for every address, client and chain.
\<close>

theorem C1_fetchMetadata_rejects_every_address:
  "hex40_address demo_address
   \<and> table_http demo_mirrors
        ''https://m1/contracts/full_match/1/0x1000000000000000000000000000000000000000/metadata.json''
        0 = (Inr demo_metadata, 1)
   \<and> fetchMetadata openssl demo_client (table_http demo_mirrors) now 1 demo_address 0
       = (Inl (new_Error ''Invalid address format: 0x1000000000000000000000000000000000000000''),
          0, [])
   \<and> fetchMetadata openssl client http clock chainId address w
       = (Inl (new_Error (''Invalid address format: '' @ address)), w, [])"
proof -
  have "hex40_address demo_address"
    unfolding demo_address_def by code_simp
  moreover have "table_http demo_mirrors
        ''https://m1/contracts/full_match/1/0x1000000000000000000000000000000000000000/metadata.json''
        0 = (Inr demo_metadata, 1)"
    by (simp add: table_http_def demo_mirrors_def)
  ultimately show ?thesis
    by (simp add: fetchMetadata_throws demo_address_def)
qed



text \<open>
  The assignments of the callbacks, for any outcome of the individual fetches: the
  object ends with the content of every listed file whose fetch succeeded, except a file
  named \<open>__proto__\<close>, for which nothing is stored.
\<close>

lemma js_assign_keeps_no_proto:
  "map_of obj ''__proto__'' = None \<Longrightarrow> map_of (js_assign obj k v) ''__proto__'' = None"
  by (cases "k = ''__proto__''") (simp_all add: js_assign_def update_conv')

lemma map_of_js_assign:
  "map_of obj ''__proto__'' = None \<Longrightarrow>
   map_of (js_assign obj k v) f = (if f = k \<and> k \<noteq> ''__proto__'' then Some v else map_of obj f)"
  by (cases "k = ''__proto__''") (simp_all add: js_assign_def update_conv')

lemma callbacks_collect:
  "map_of obj ''__proto__'' = None \<Longrightarrow>
   map_of (foldl (\<lambda>sources filePath.
                    case fetch filePath of
                      Inr content \<Rightarrow> js_assign sources filePath content
                    | Inl error \<Rightarrow> sources) obj files) f =
     (case fetch f of
        Inr content \<Rightarrow> if f \<in> set files \<and> f \<noteq> ''__proto__'' then Some content else map_of obj f
      | Inl (error :: js_error) \<Rightarrow> map_of obj f)"
proof (induction files arbitrary: obj)
  case Nil
  show ?case by (simp split: sum.splits)
next
  case (Cons filePath rest)
  let ?obj' = "case fetch filePath of
                 Inr content \<Rightarrow> js_assign obj filePath content
               | Inl error \<Rightarrow> obj"
  have no: "map_of ?obj' ''__proto__'' = None"
    using Cons.prems by (cases "fetch filePath") (simp_all add: js_assign_keeps_no_proto)
  have step: "map_of ?obj' f =
      (case fetch filePath of
         Inr content \<Rightarrow> if f = filePath \<and> filePath \<noteq> ''__proto__'' then Some content else map_of obj f
       | Inl error \<Rightarrow> map_of obj f)"
    using Cons.prems by (cases "fetch filePath") (simp_all add: map_of_js_assign)
  show ?case
    using Cons.IH [OF no] step
    by (cases "fetch filePath"; cases "fetch f"; cases "f = filePath") auto
qed

section \<open>Properties of src/archive.js\<close>

lemma validate_createProvenance [simp]:
  "validateProvenance (createProvenance options now rnd)"
  by (simp add: validateProvenance_def createProvenance_def)

text \<open>
  \<open>getArchiveDir\<close> throws for every chain name and address, because
  \<open>toChecksumAddress\<close> does.
\<close>

lemma getArchiveDir_throws:
  "getArchiveDir openssl chainName address =
     Inl (new_Error
       (if matches_hex40 (replace_first ''0x'' [] (toLowerCase address))
        then ''Digest method not supported'' else ''Invalid address format''))"
  by (simp add: getArchiveDir_def toChecksumAddress_throws)

text \<open>
  Claim C4, evaluated at the chain \<open>mainnet\<close> and \<open>demo_address\<close> with an empty archive.
  The claim says that the check returns \<open>exists = false\<close>, \<open>isStale = true\<close> and
  \<open>shouldSkip = false\<close>. The code calls \<open>getArchiveDir\<close> before its \<open>try\<close> block, and
  throws \<open>Digest method not supported\<close>. It throws for every chain name, address and
  option, so it returns no result at all; and \<open>persistContract\<close> throws in the same
  way, so no fetch is ever recorded that a later check could skip.
\<close>

theorem C4_checkProvenance_throws:
  "hex40_address demo_address
   \<and> checkProvenance openssl Map.empty now ''mainnet'' demo_address plain_check
       = Inl (new_Error ''Digest method not supported'')
   \<and> (\<exists>error. checkProvenance openssl files now chainName address options = Inl error)
   \<and> (\<exists>error. persist_provenance openssl files chainName address p = Inl error)"
proof -
  have a: "hex40_address demo_address"
    unfolding demo_address_def by code_simp
  then have "matches_hex40 (replace_first ''0x'' [] (toLowerCase demo_address))"
    by (rule hex40_address_passes_format_test)
  with a show ?thesis
    by (simp add: checkProvenance_def persist_provenance_def getArchiveDir_throws)
qed

text \<open>
  Claim C5, as the code has it. The provenance the fetch command builds after a
  success has \<open>lastUpdatedAt\<close> equal to the current time and \<open>sourcesUsed\<close> equal to the one
  source of the current fetch; when a prior record exists, its (non-empty)
  \<open>firstSeenAt\<close> is kept, and on the first success \<open>firstSeenAt\<close> is the current time.
\<close>

theorem C5_fetch_provenance:
  "lastUpdatedAt (fetch_provenance provenanceCheck source now rnd) = Some (IsoTime now)
   \<and> sourcesUsed (fetch_provenance provenanceCheck source now rnd) = Some [source]
   \<and> (\<forall>prior d. pc_provenance provenanceCheck = Some prior \<and> firstSeenAt prior = Some d
          \<and> truthy_date d \<longrightarrow>
        firstSeenAt (fetch_provenance provenanceCheck source now rnd) = Some d)
   \<and> (pc_provenance provenanceCheck = None \<longrightarrow>
        firstSeenAt (fetch_provenance provenanceCheck source now rnd) = Some (IsoTime now))"
  by (simp add: fetch_provenance_def createProvenance_def)

text \<open>
  Claim C5 as stated fails: a contract first fetched through the explorer and fetched
  again from Sourcify ends with \<open>sourcesUsed = ['sourcify']\<close>; the union would also hold
  \<open>explorer\<close>.
\<close>

theorem C5_sources_are_replaced:
  "sourcesUsed explorer_record = Some [''explorer'']
   \<and> sourcesUsed (fetch_provenance found_explorer_record ''sourcify'' 1672617600000 ''p0o9i8u7y'')
       = Some [''sourcify'']"
  by (simp add: explorer_record_def found_explorer_record_def fetch_provenance_def
      createProvenance_def)

text \<open>
  The record of 1 January fetched again on 2 January keeps its \<open>firstSeenAt\<close>; a first
  fetch on 2 January starts there.
\<close>

theorem C5_fetch_provenance_witness:
  "firstSeenAt (fetch_provenance found_explorer_record ''sourcify'' 1672617600000 ''p0o9i8u7y'')
     = Some (IsoTime 1672531200000)
   \<and> lastUpdatedAt (fetch_provenance found_explorer_record ''sourcify'' 1672617600000 ''p0o9i8u7y'')
     = Some (IsoTime 1672617600000)
   \<and> firstSeenAt (fetch_provenance no_record ''sourcify'' 1672617600000 ''p0o9i8u7y'')
     = Some (IsoTime 1672617600000)"
proof -
  have prior: "pc_provenance found_explorer_record = Some explorer_record"
    "firstSeenAt explorer_record = Some (IsoTime 1672531200000)"
    "truthy_date (IsoTime 1672531200000)"
    "pc_provenance no_record = None"
    by (simp_all add: found_explorer_record_def explorer_record_def fetch_provenance_def
        createProvenance_def truthy_date_def no_record_def)
  from C5_fetch_provenance [of found_explorer_record "''sourcify''" 1672617600000 "''p0o9i8u7y''"]
    C5_fetch_provenance [of no_record "''sourcify''" 1672617600000 "''p0o9i8u7y''"] prior
  show ?thesis by blast
qed




section \<open>Properties of src/checksum.js\<close>

text \<open>Objects: assignment keeps the names distinct and stores only the value given.\<close>

lemma js_assign_distinct:
  "distinct (map fst obj) \<Longrightarrow> distinct (map fst (js_assign obj k v))"
  by (simp add: js_assign_def distinct_update)

lemma set_update_subset: "set (AList.update k v al) \<subseteq> insert (k, v) (set al)"
  by (induction al) auto

lemma set_js_assign: "set (js_assign obj k v) \<subseteq> insert (k, v) (set obj)"
  using set_update_subset [of k v obj] by (auto simp: js_assign_def)

lemma update_fresh: "k \<notin> fst ` set al \<Longrightarrow> AList.update k v al = al @ [(k, v)]"
  by (induction al) auto

lemma set_js_entries [simp]: "set (js_entries obj) = set obj"
  by (auto simp: js_entries_def)

lemma distinct_js_entries: "distinct obj \<Longrightarrow> distinct (js_entries obj)"
  by (auto simp: js_entries_def)

lemma js_read_own:
  "distinct (map fst obj) \<Longrightarrow> (k, v) \<in> set obj \<Longrightarrow> js_read obj k = Text v"
  by (simp add: js_read_def)

text \<open>The two loops of \<open>verifyChecksums\<close>, as filters over the lists they run through.\<close>

lemma check_missing_lists:
  "missingFiles (check_missing cur ks r)
     = missingFiles r @ filter (\<lambda>k. falsy (js_read cur k)) ks
   \<and> valid (check_missing cur ks r)
     = (valid r \<and> filter (\<lambda>k. falsy (js_read cur k)) ks = [])
   \<and> extraFiles (check_missing cur ks r) = extraFiles r
   \<and> mismatchedFiles (check_missing cur ks r) = mismatchedFiles r"
  by (induction ks arbitrary: r) auto

lemma check_current_lists:
  "extraFiles (check_current expected es r)
     = extraFiles r @ map fst (filter (\<lambda>fh. falsy (js_read expected (fst fh))) es)
   \<and> mismatchedFiles (check_current expected es r)
     = mismatchedFiles r @
       map (\<lambda>fh. (fst fh, js_read expected (fst fh), snd fh))
         (filter (\<lambda>fh. \<not> falsy (js_read expected (fst fh))
                       \<and> js_read expected (fst fh) \<noteq> Text (snd fh)) es)
   \<and> valid (check_current expected es r)
     = (valid r \<and> filter (\<lambda>fh. \<not> falsy (js_read expected (fst fh))
                                \<and> js_read expected (fst fh) \<noteq> Text (snd fh)) es = [])
   \<and> missingFiles (check_current expected es r) = missingFiles r"
  by (induction expected es r rule: check_current.induct) auto

text \<open>
  The result of \<open>verifyChecksums\<close> for every directory and every object of expected
  checksums: the missing files are the expected names under which the current checksums
  hold nothing truthy; the extra files are the current files under whose name the
  expected object holds nothing truthy; the mismatched files are the current files under
  whose name the expected object holds something truthy other than the current digest;
  and the result is valid iff no file is missing and none is mismatched.
\<close>

lemma verifyChecksums_lists:
  "missingFiles (verifyChecksums hashFile directory expected)
     = filter (\<lambda>k. falsy (js_read (generateChecksums hashFile directory) k)) (js_keys expected)"
  "extraFiles (verifyChecksums hashFile directory expected)
     = map fst (filter (\<lambda>fh. falsy (js_read expected (fst fh)))
                  (js_entries (generateChecksums hashFile directory)))"
  "mismatchedFiles (verifyChecksums hashFile directory expected)
     = map (\<lambda>fh. (fst fh, js_read expected (fst fh), snd fh))
         (filter (\<lambda>fh. \<not> falsy (js_read expected (fst fh))
                       \<and> js_read expected (fst fh) \<noteq> Text (snd fh))
            (js_entries (generateChecksums hashFile directory)))"
  "valid (verifyChecksums hashFile directory expected)
     = (missingFiles (verifyChecksums hashFile directory expected) = []
        \<and> mismatchedFiles (verifyChecksums hashFile directory expected) = [])"
  by (simp_all add: verifyChecksums_def Let_def check_missing_lists check_current_lists)

text \<open>What \<open>generateChecksums\<close> returns.\<close>

lemma scanDirectory_files_of:
  "scanDirectory h prefix entries acc = foldl (record_hash h) acc (files_of prefix entries)"
  by (induction h prefix entries acc rule: scanDirectory.induct) (simp_all add: record_hash_def)

lemma foldl_record_hash_distinct:
  "distinct (map fst acc) \<Longrightarrow> distinct (map fst (foldl (record_hash h) acc fs))"
  by (induction fs arbitrary: acc) (simp_all add: record_hash_def js_assign_distinct)

lemma foldl_record_hash_values:
  "\<forall>kv \<in> set acc. snd kv \<noteq> [] \<Longrightarrow> \<forall>c. h c \<noteq> [] \<Longrightarrow>
     \<forall>kv \<in> set (foldl (record_hash h) acc fs). snd kv \<noteq> []"
proof (induction fs arbitrary: acc)
  case Nil
  then show ?case by simp
next
  case (Cons f fs)
  have "\<forall>kv \<in> set (record_hash h acc f). snd kv \<noteq> []"
    using Cons.prems set_js_assign [of acc "fst f" "h (snd f)"]
    by (auto simp: record_hash_def)
  with Cons.IH Cons.prems(2) show ?case by simp
qed

lemma foldl_record_hash_fresh:
  "distinct (map fst fs) \<Longrightarrow> set (map fst fs) \<inter> set (map fst acc) = {} \<Longrightarrow>
     foldl (record_hash h) acc fs
       = acc @ map (\<lambda>pc. (fst pc, h (snd pc))) (filter (\<lambda>pc. fst pc \<noteq> ''__proto__'') fs)"
proof (induction fs arbitrary: acc)
  case Nil
  then show ?case by simp
next
  case (Cons f fs)
  from Cons.prems have fresh: "fst f \<notin> fst ` set acc" by auto
  show ?case
  proof (cases "fst f = ''__proto__''")
    case True
    with fresh have "map_of acc (fst f) = None"
      by (simp add: map_of_eq_None_iff)
    with True have u: "record_hash h acc f = acc"
      by (simp add: record_hash_def js_assign_def)
    from Cons.prems have "set (map fst fs) \<inter> set (map fst acc) = {}" by auto
    with Cons.IH [of acc] Cons.prems(1) u True show ?thesis by simp
  next
    case False
    with fresh have u: "record_hash h acc f = acc @ [(fst f, h (snd f))]"
      by (simp add: record_hash_def js_assign_def update_fresh)
    from Cons.prems have "set (map fst fs) \<inter> set (map fst (acc @ [(fst f, h (snd f))])) = {}"
      by auto
    with Cons.IH [of "acc @ [(fst f, h (snd f))]"] Cons.prems(1) u False show ?thesis by simp
  qed
qed

lemma generateChecksums_distinct:
  assumes "distinct (map fst (files_of [] directory))"
  shows "generateChecksums h directory
           = map (\<lambda>pc. (fst pc, h (snd pc)))
               (filter (\<lambda>pc. fst pc \<noteq> ''__proto__'') (files_of [] directory))"
  using foldl_record_hash_fresh [OF assms, of "[]" h]
  by (simp add: generateChecksums_def scanDirectory_files_of)

lemma rewrite_file_files_of:
  "rewrite_file path c' entries = Some entries' \<Longrightarrow>
     \<exists>before after c.
        files_of prefix entries = before @ (prefix @ path_join path, c) # after
      \<and> files_of prefix entries' = before @ (prefix @ path_join path, c') # after"
proof (induction path c' entries arbitrary: entries' prefix rule: rewrite_file.induct)
  case (1 c' entries)
  then show ?case by simp
next
  case (2 n ns c')
  then show ?case by simp
next
  case (3 n ns c' name node entries)
  show ?case
  proof (cases "name = n")
    case True
    show ?thesis
    proof (cases node)
      case (File content)
      with True "3.prems" have "ns = []" "entries' = (name, File c') # entries"
        by (auto split: if_splits)
      with True File show ?thesis
        by (intro exI [of _ "[]"] exI [of _ "files_of prefix entries"] exI [of _ content]) simp
    next
      case (Dir sub)
      with True "3.prems" obtain sub' where
        ns: "ns \<noteq> []" and r: "rewrite_file ns c' sub = Some sub'"
        and e: "entries' = (name, Dir sub') # entries"
        by (auto split: if_splits)
      from "3.IH"(1) [OF True Dir ns r, of "prefix @ name @ ''/''"] obtain before after c where
        "files_of (prefix @ name @ ''/'') sub = before @ (prefix @ name @ ''/'' @ path_join ns, c) # after"
        "files_of (prefix @ name @ ''/'') sub' = before @ (prefix @ name @ ''/'' @ path_join ns, c') # after"
        by auto
      moreover from ns have "path_join (n # ns) = n @ ''/'' @ path_join ns"
        by (cases ns) simp_all
      ultimately show ?thesis
        using True Dir e
        by (intro exI [of _ before] exI [of _ "after @ files_of prefix entries"] exI [of _ c]) simp
    next
      case Other
      with True "3.prems" show ?thesis by simp
    qed
  next
    case False
    with "3.prems" obtain rest' where r: "rewrite_file (n # ns) c' entries = Some rest'"
      and e: "entries' = (name, node) # rest'"
      by auto
    from "3.IH"(2) [OF False r, of prefix] obtain before after c where
      ba: "files_of prefix entries = before @ (prefix @ path_join (n # ns), c) # after"
        "files_of prefix rest' = before @ (prefix @ path_join (n # ns), c') # after"
      by auto
    show ?thesis
    proof (cases node)
      case (File content)
      with ba e show ?thesis
        by (intro exI [of _ "(prefix @ name, content) # before"] exI [of _ after] exI [of _ c]) simp
    next
      case (Dir sub)
      with ba e show ?thesis
        by (intro exI [of _ "files_of (prefix @ name @ ''/'') sub @ before"] exI [of _ after]
            exI [of _ c]) simp
    next
      case Other
      with ba e show ?thesis
        by (intro exI [of _ before] exI [of _ after] exI [of _ c]) simp
    qed
  qed
qed

lemma filter_singleton:
  "distinct xs \<Longrightarrow> x \<in> set xs \<Longrightarrow> \<forall>y \<in> set xs. P y = (y = x) \<Longrightarrow> filter P xs = [x]"
proof (induction xs)
  case Nil
  then show ?case by simp
next
  case (Cons a xs)
  show ?case
  proof (cases "a = x")
    case True
    with Cons.prems have "\<forall>y \<in> set xs. \<not> P y" by auto
    then have "filter P xs = []" by (simp add: filter_empty_conv)
    with True Cons.prems show ?thesis by simp
  next
    case False
    with Cons show ?thesis by auto
  qed
qed

text \<open>
  The round trip, for every directory: with a digest that is never the empty string
  (a SHA-256 digest in hexadecimal has 64 characters), verifying a directory against
  the checksums just generated from it gives \<open>valid = true\<close> and no missing, extra or
  mismatched file.
\<close>

lemma verifyChecksums_roundtrip:
  assumes "\<forall>c. hashFile c \<noteq> []"
  shows "verifyChecksums hashFile directory (generateChecksums hashFile directory)
           = \<lparr>valid = True, missingFiles = [], extraFiles = [], mismatchedFiles = []\<rparr>"
proof -
  define cur where "cur = generateChecksums hashFile directory"
  have d: "distinct (map fst cur)"
    unfolding cur_def generateChecksums_def scanDirectory_files_of
    by (rule foldl_record_hash_distinct) simp
  have v: "\<forall>kv \<in> set cur. snd kv \<noteq> []"
    unfolding cur_def generateChecksums_def scanDirectory_files_of
    by (rule foldl_record_hash_values) (use assms in simp_all)
  have own: "js_read cur (fst kv) = Text (snd kv)" if "kv \<in> set cur" for kv
    using js_read_own [OF d, of "fst kv" "snd kv"] that by simp
  have "\<forall>k \<in> set (js_keys cur). \<not> falsy (js_read cur k)"
    using own v by (auto simp: js_keys_def falsy_def)
  then have m: "filter (\<lambda>k. falsy (js_read cur k)) (js_keys cur) = []"
    by (simp add: filter_empty_conv)
  have "\<forall>fh \<in> set (js_entries cur). \<not> falsy (js_read cur (fst fh))"
    using own v by (auto simp: falsy_def)
  then have e: "filter (\<lambda>fh. falsy (js_read cur (fst fh))) (js_entries cur) = []"
    by (simp add: filter_empty_conv)
  have "\<forall>fh \<in> set (js_entries cur). js_read cur (fst fh) = Text (snd fh)"
    using own by simp
  then have x: "filter (\<lambda>fh. \<not> falsy (js_read cur (fst fh))
                       \<and> js_read cur (fst fh) \<noteq> Text (snd fh)) (js_entries cur) = []"
    by (simp add: filter_empty_conv)
  show ?thesis
    by (rule verification.equality)
      (simp_all add: verifyChecksums_lists cur_def [symmetric] m e x)
qed

text \<open>
  One file rewritten, in a directory whose files have distinct relative paths (as the
  files of a directory have), with a content whose digest differs from the digest of the
  old content \<open>c\<close>: verifying the new directory against the checksums of the old one
  reports exactly that file in \<open>mismatchedFiles\<close>, with the expected and the actual
  digest, and \<open>valid = false\<close>, unless the relative path of the file is \<open>__proto__\<close>; then
  nothing is reported.
\<close>

lemma verifyChecksums_rewritten:
  assumes h: "\<forall>c. hashFile c \<noteq> []"
    and rw: "rewrite_file path c' directory = Some directory'"
    and dist: "distinct (map fst (files_of [] directory))"
    and old: "map_of (files_of [] directory) (path_join path) = Some c"
    and diff: "hashFile c' \<noteq> hashFile c"
  shows "verifyChecksums hashFile directory' (generateChecksums hashFile directory)
           = (if path_join path = ''__proto__''
              then \<lparr>valid = True, missingFiles = [], extraFiles = [], mismatchedFiles = []\<rparr>
              else \<lparr>valid = False, missingFiles = [], extraFiles = [],
                     mismatchedFiles = [(path_join path, Text (hashFile c), hashFile c')]\<rparr>)"
proof -
  let ?H = "\<lambda>pc. (fst pc, hashFile (snd pc))"
  let ?keep = "filter (\<lambda>pc. fst pc \<noteq> ''__proto__'')"
  define p where "p = path_join path"
  from rewrite_file_files_of [OF rw, of "[]"] obtain before after c0 where
    fs: "files_of [] directory = before @ (p, c0) # after"
    and fs': "files_of [] directory' = before @ (p, c') # after"
    by (auto simp: p_def)
  from fs have "(p, c0) \<in> set (files_of [] directory)" by simp
  with dist have "map_of (files_of [] directory) p = Some c0"
    by (rule map_of_is_SomeI)
  with old have c0: "c0 = c" by (simp add: p_def)
  from dist fs fs' have dist': "distinct (map fst (files_of [] directory'))" by simp
  define expected where "expected = generateChecksums hashFile directory"
  define cur where "cur = generateChecksums hashFile directory'"
  show ?thesis
  proof (cases "p = ''__proto__''")
    case True
    have "expected = cur"
      unfolding expected_def cur_def generateChecksums_distinct [OF dist]
        generateChecksums_distinct [OF dist'] fs fs'
      using True by simp
    with verifyChecksums_roundtrip [OF h, of directory'] True show ?thesis
      by (simp add: expected_def cur_def p_def)
  next
    case False
    have e: "expected = map ?H (?keep before) @ (p, hashFile c) # map ?H (?keep after)"
      unfolding expected_def generateChecksums_distinct [OF dist] fs
      using False c0 by simp
    have c: "cur = map ?H (?keep before) @ (p, hashFile c') # map ?H (?keep after)"
      unfolding cur_def generateChecksums_distinct [OF dist'] fs'
      using False by simp
    have sub: "fst ` set (?keep xs) \<subseteq> fst ` set xs" for xs :: "(string \<times> string) list"
      by auto
    from dist fs have dk: "distinct (map fst (before @ (p, c0) # after))" by simp
    have de: "distinct (map fst expected)"
      using dk sub [of before] sub [of after]
      by (auto simp: e comp_def distinct_map_filter)
    have dc: "distinct (map fst cur)"
      using dk sub [of before] sub [of after]
      by (auto simp: c comp_def distinct_map_filter)
    have keys: "fst ` set expected = fst ` set cur"
      by (auto simp: e c)
    have read_e: "js_read expected (fst kv) = Text (snd kv)" if "kv \<in> set expected" for kv
      using js_read_own [OF de, of "fst kv" "snd kv"] that by simp
    have read_c: "js_read cur (fst kv) = Text (snd kv)" if "kv \<in> set cur" for kv
      using js_read_own [OF dc, of "fst kv" "snd kv"] that by simp
    have nonempty_c: "\<forall>kv \<in> set cur. snd kv \<noteq> []"
      using h by (auto simp: c)
    have nonempty_e: "\<forall>kv \<in> set expected. snd kv \<noteq> []"
      using h by (auto simp: e)
    have "\<forall>k \<in> set (js_keys expected). \<not> falsy (js_read cur k)"
    proof
      fix k assume "k \<in> set (js_keys expected)"
      then have "k \<in> fst ` set cur"
        using keys by (auto simp: js_keys_def)
      then obtain kv where "kv \<in> set cur" "k = fst kv" by auto
      with read_c nonempty_c show "\<not> falsy (js_read cur k)"
        by (auto simp: falsy_def)
    qed
    then have m: "filter (\<lambda>k. falsy (js_read cur k)) (js_keys expected) = []"
      by (simp add: filter_empty_conv)
    have at_p: "js_read expected p = Text (hashFile c)"
      using read_e [of "(p, hashFile c)"] by (simp add: e)
    have truthy: "\<not> falsy (js_read expected (fst fh))" if "fh \<in> set cur" for fh
    proof -
      from that keys obtain kv where kv: "kv \<in> set expected" "fst kv = fst fh"
        by (metis (no_types, lifting) imageE image_eqI)
      from read_e [OF kv(1)] kv(2) have "js_read expected (fst fh) = Text (snd kv)"
        by simp
      moreover from nonempty_e kv(1) have "snd kv \<noteq> []" by simp
      ultimately show ?thesis
        by (simp add: falsy_def)
    qed
    then have x: "filter (\<lambda>fh. falsy (js_read expected (fst fh))) (js_entries cur) = []"
      by (simp add: filter_empty_conv)
    have other: "js_read expected (fst fh) = Text (snd fh)"
      if "fh \<in> set cur" "fh \<noteq> (p, hashFile c')" for fh
    proof -
      from that have "fh \<in> set expected" by (auto simp: e c)
      then show ?thesis by (rule read_e)
    qed
    have "\<forall>fh \<in> set (js_entries cur).
            (\<not> falsy (js_read expected (fst fh)) \<and> js_read expected (fst fh) \<noteq> Text (snd fh))
              = (fh = (p, hashFile c'))"
      using truthy other at_p diff by auto
    moreover have "distinct (js_entries cur)"
      using dc by (intro distinct_js_entries) (rule distinct_map [THEN iffD1, THEN conjunct1])
    moreover have "(p, hashFile c') \<in> set (js_entries cur)"
      by (simp add: c)
    ultimately have mm: "filter (\<lambda>fh. \<not> falsy (js_read expected (fst fh))
                       \<and> js_read expected (fst fh) \<noteq> Text (snd fh)) (js_entries cur)
        = [(p, hashFile c')]"
      by (intro filter_singleton)
    have "verifyChecksums hashFile directory' expected
            = \<lparr>valid = False, missingFiles = [], extraFiles = [],
               mismatchedFiles = [(p, Text (hashFile c), hashFile c')]\<rparr>"
      by (rule verification.equality)
        (simp_all add: verifyChecksums_lists cur_def [symmetric] m x mm at_p)
    with False show ?thesis
      by (simp add: expected_def p_def)
  qed
qed

text \<open>
  A file that is found and for which the expected object has no own property: it is
  reported as an extra file, and not as a mismatch, unless its relative path is one of
  the names of \<open>Object.prototype\<close>; then it is reported as a mismatch and the
  result is not valid.
\<close>

lemma unexpected_file:
  assumes "(f, h) \<in> set (generateChecksums hashFile directory)" and "map_of expected f = None"
  shows "if f \<in> set object_prototype_names
         then (f, Builtin, h) \<in> set (mismatchedFiles (verifyChecksums hashFile directory expected))
              \<and> \<not> valid (verifyChecksums hashFile directory expected)
         else f \<in> set (extraFiles (verifyChecksums hashFile directory expected))
              \<and> (\<forall>e a. (f, e, a) \<notin> set (mismatchedFiles
                                         (verifyChecksums hashFile directory expected)))"
proof (cases "f \<in> set object_prototype_names")
  case True
  with assms(2) have r: "js_read expected f = Builtin"
    by (simp add: js_read_def)
  with assms(1) have "(f, Builtin, h) \<in>
      set (mismatchedFiles (verifyChecksums hashFile directory expected))"
    by (force simp: verifyChecksums_lists(3) falsy_def)
  moreover from this have "\<not> valid (verifyChecksums hashFile directory expected)"
    by (auto simp: verifyChecksums_lists(4))
  ultimately show ?thesis using True by simp
next
  case False
  with assms(2) have r: "js_read expected f = Undefined"
    by (simp add: js_read_def)
  with assms(1) have "f \<in> set (extraFiles (verifyChecksums hashFile directory expected))"
    by (force simp: verifyChecksums_lists(2) falsy_def)
  moreover from r have "(f, e, a) \<notin> set (mismatchedFiles
                                         (verifyChecksums hashFile directory expected))" for e a
    by (auto simp: verifyChecksums_lists(3) falsy_def)
  ultimately show ?thesis using False by simp
qed

text \<open>
  A run on \<open>demo_directory\<close>: it verifies against its own checksums, and after
  \<open>abi.json\<close> has been rewritten that file alone is reported, with both digests. The
  keys of an object are listed with the array indices first.
\<close>

lemma demo_directory_run:
  "verifyChecksums tag_digest demo_directory (generateChecksums tag_digest demo_directory)
     = \<lparr>valid = True, missingFiles = [], extraFiles = [], mismatchedFiles = []\<rparr>
   \<and> rewrite_file [''abi.json''] ''[{}]'' demo_directory = Some demo_directory_changed
   \<and> verifyChecksums tag_digest demo_directory_changed (generateChecksums tag_digest demo_directory)
     = \<lparr>valid = False, missingFiles = [], extraFiles = [],
        mismatchedFiles = [(''abi.json'', Text ''sha256:[]'', ''sha256:[{}]'')]\<rparr>"
  by code_simp

lemma js_keys_order:
  "js_keys [(''b.sol'', ''x''), (''10'', ''y''), (''9'', ''z''), (''007'', ''w'')]
     = [''9'', ''10'', ''b.sol'', ''007'']"
  by code_simp

lemma array_index_proto [simp]: "array_index ''__proto__'' = None"
  by code_simp

lemma array_index_constructor [simp]: "array_index ''constructor'' = None"
  by code_simp

lemma constructor_is_inherited [simp]: "js_read [] ''constructor'' = Builtin"
  by code_simp

text \<open>
  Claim C6, evaluated on a directory whose only file is named \<open>__proto__\<close>, and on a
  directory whose only file is named \<open>constructor\<close>. For the first, the claim says that
  after the content of the file has been changed from \<open>c\<close> to \<open>c'\<close>, verifying against
  the checksums of the original directory reports the file in \<open>mismatchedFiles\<close>. The
  code records no checksum for the file (the assignment \<open>checksums['__proto__'] = ...\<close>
  stores nothing), and the verification of the changed directory is valid with nothing
  reported. For the second, verified against an empty set of expected checksums, the
  file is an extra file, and the claim says that extra files do not make the result
  invalid. The code reads \<open>expectedChecksums['constructor']\<close>, finds the function
  inherited from \<open>Object.prototype\<close>, and reports the file as mismatched, with
  \<open>valid = false\<close>.
\<close>

theorem C6_inherited_property_names:
  "rewrite_file [''__proto__''] c' [(''__proto__'', File c)] = Some [(''__proto__'', File c')]
   \<and> generateChecksums hashFile [(''__proto__'', File c)] = []
   \<and> verifyChecksums hashFile [(''__proto__'', File c')]
        (generateChecksums hashFile [(''__proto__'', File c)])
       = \<lparr>valid = True, missingFiles = [], extraFiles = [], mismatchedFiles = []\<rparr>
   \<and> verifyChecksums hashFile [(''constructor'', File c)] []
       = \<lparr>valid = False, missingFiles = [], extraFiles = [],
          mismatchedFiles = [(''constructor'', Builtin, hashFile c)]\<rparr>"
  by (simp add: verifyChecksums_def generateChecksums_def js_assign_def js_entries_def
      js_keys_def falsy_def)
end
